theory Spec2Isabelle
  imports Complex_Main "HOL-Library.Sublist" "HOL-Library.AList"
begin

section \<open>Python strings\<close>

text \<open>
  A Python \<^verbatim>\<open>str\<close> is the sequence of its Unicode code points, and \<^verbatim>\<open>len\<close>,
  \<^verbatim>\<open>find\<close>, slicing and \<^verbatim>\<open>strip\<close> all count code points. A string is therefore
  modelled as the list of its code points; \<open>str\<close> embeds an ASCII literal.
\<close>

type_synonym pystr = "nat list"

abbreviation cp :: "char \<Rightarrow> nat" where
  "cp \<equiv> of_char"

definition str :: "string \<Rightarrow> pystr" where
  "str s = map cp s"

text \<open>
  \<^verbatim>\<open>str.isspace\<close> for one code point: the characters \<^verbatim>\<open>str.strip()\<close> removes
  (U+0009..U+000D, U+001C..U+0020, U+0085, U+00A0, U+1680, U+2000..U+200A, U+2028,
  U+2029, U+202F, U+205F, U+3000).
\<close>

definition isspace :: "nat \<Rightarrow> bool" where
  "isspace c \<longleftrightarrow>
     (9 \<le> c \<and> c \<le> 13) \<or> (28 \<le> c \<and> c \<le> 32) \<or> c = 133 \<or> c = 160 \<or> c = 5760 \<or>
     (8192 \<le> c \<and> c \<le> 8202) \<or> c = 8232 \<or> c = 8233 \<or> c = 8239 \<or> c = 8287 \<or> c = 12288"

text \<open>\<^verbatim>\<open>s.strip()\<close>: leading and trailing whitespace removed.\<close>

definition strip :: "pystr \<Rightarrow> pystr" where
  "strip s = rev (dropWhile isspace (rev (dropWhile isspace s)))"

text \<open>
  A slice bound as Python adjusts it for a sequence of length \<open>n\<close>: a negative bound
  counts from the end, and every bound is clipped into \<open>0..n\<close>.
\<close>

definition slice_index :: "int \<Rightarrow> nat \<Rightarrow> nat" where
  "slice_index i n = (if i < 0 then nat (max 0 (i + int n)) else min (nat i) n)"

text \<open>\<^verbatim>\<open>s[i:j]\<close>.\<close>

definition slice :: "'a list \<Rightarrow> int \<Rightarrow> int \<Rightarrow> 'a list" where
  "slice s i j =
     (let a = slice_index i (length s); b = slice_index j (length s)
      in take (b - a) (drop a s))"

text \<open>
  \<^verbatim>\<open>s.find(sub, start)\<close>: the lowest index at or after \<open>start\<close> where \<open>sub\<close> occurs,
  \<open>-1\<close> when there is none. \<open>find_at sub t i\<close> searches the suffix \<open>t\<close> that starts at
  index \<open>i\<close>.
\<close>

fun find_at :: "'a list \<Rightarrow> 'a list \<Rightarrow> nat \<Rightarrow> int" where
  "find_at sub [] i = (if sub = [] then int i else - 1)"
| "find_at sub (c # cs) i = (if prefix sub (c # cs) then int i else find_at sub cs (Suc i))"

definition str_find :: "'a list \<Rightarrow> 'a list \<Rightarrow> int \<Rightarrow> int" where
  "str_find s sub start =
     (if int (length s) < start then - 1
      else (let a = slice_index start (length s) in find_at sub (drop a s) a))"

text \<open>\<^verbatim>\<open>sub in s\<close> for two strings.\<close>

definition str_contains :: "'a list \<Rightarrow> 'a list \<Rightarrow> bool" where
  "str_contains sub s \<longleftrightarrow> 0 \<le> str_find s sub 0"

section \<open>Python objects and exceptions\<close>

text \<open>
  The values \<^verbatim>\<open>json.loads\<close> produces. A float is kept as the exact rational it
  denotes, or one of the three special values; the comparisons the program makes (with
  the integers 0 and 100) are exact in Python as well. A \<^verbatim>\<open>dict\<close> is the list of
  its items in insertion order, with distinct keys.
\<close>

datatype pyfloat = Finite rat | PosInf | NegInf | NaN

datatype pyobj =
    PyNone
  | PyBool bool
  | PyInt int
  | PyFloat pyfloat
  | PyStr pystr
  | PyList "pyobj list"
  | PyDict "(pystr \<times> pyobj) list"

text \<open>
  The exceptions that can leave the functions modelled here. \<open>ValidationError\<close> is
  pydantic's, a subclass of \<^verbatim>\<open>ValueError\<close>; \<open>OtherException\<close> stands for any exception
  of the remote service that is not a \<^verbatim>\<open>ValueError\<close>.
\<close>

datatype py_exc =
    ValueError pystr
  | ValidationError
  | TypeError
  | KeyError pystr
  | RuntimeError pystr
  | OtherException

fun is_ValueError :: "py_exc \<Rightarrow> bool" where
  "is_ValueError (ValueError m) = True"
| "is_ValueError ValidationError = True"
| "is_ValueError e = False"

section \<open>The JSON decoder of the standard library\<close>

text \<open>
  \<^verbatim>\<open>json.loads\<close> is the decoder of Python's standard library. It is modelled here as
  a recursive-descent scanner over the remaining input, following the library's scanner:
  the JSON grammar, the constants \<^verbatim>\<open>NaN\<close>, \<^verbatim>\<open>Infinity\<close> and \<^verbatim>\<open>-Infinity\<close> the library
  also accepts, strict strings (no raw control character), and later duplicates of a key
  replacing the earlier value. A result of \<open>None\<close> is a \<^verbatim>\<open>JSONDecodeError\<close>. Two things
  are outside the model: the rounding of a decimal literal to a double (the literal's
  exact value is kept), and the interpreter's resource limits (recursion depth, digits
  of an integer literal).
\<close>

definition json_ws :: "nat \<Rightarrow> bool" where
  "json_ws c \<longleftrightarrow> c = cp CHR '' '' \<or> c = 9 \<or> c = 10 \<or> c = 13"

definition skip_ws :: "pystr \<Rightarrow> pystr" where
  "skip_ws s = dropWhile json_ws s"

definition is_digit :: "nat \<Rightarrow> bool" where
  "is_digit c \<longleftrightarrow> cp CHR ''0'' \<le> c \<and> c \<le> cp CHR ''9''"

definition digits_value :: "pystr \<Rightarrow> nat" where
  "digits_value ds = foldl (\<lambda>a d. 10 * a + (d - cp CHR ''0'')) 0 ds"

definition hex_digit :: "nat \<Rightarrow> nat option" where
  "hex_digit c =
     (if cp CHR ''0'' \<le> c \<and> c \<le> cp CHR ''9'' then Some (c - cp CHR ''0'')
      else if cp CHR ''a'' \<le> c \<and> c \<le> cp CHR ''f'' then Some (c - cp CHR ''a'' + 10)
      else if cp CHR ''A'' \<le> c \<and> c \<le> cp CHR ''F'' then Some (c - cp CHR ''A'' + 10)
      else None)"

definition hex4 :: "nat \<Rightarrow> nat \<Rightarrow> nat \<Rightarrow> nat \<Rightarrow> nat option" where
  "hex4 a b c d =
     (case (hex_digit a, hex_digit b, hex_digit c, hex_digit d) of
        (Some w, Some x, Some y, Some z) \<Rightarrow> Some (((w * 16 + x) * 16 + y) * 16 + z)
      | _ \<Rightarrow> None)"

text \<open>The one-character escapes of a JSON string (the library's \<^verbatim>\<open>BACKSLASH\<close> table).\<close>

definition escape_char :: "nat \<Rightarrow> nat option" where
  "escape_char e =
     (if e = cp CHR 0x22 then Some (cp CHR 0x22)
      else if e = cp CHR 0x5C then Some (cp CHR 0x5C)
      else if e = cp CHR ''/'' then Some (cp CHR ''/'')
      else if e = cp CHR ''b'' then Some 8
      else if e = cp CHR ''f'' then Some 12
      else if e = cp CHR ''n'' then Some 10
      else if e = cp CHR ''r'' then Some 13
      else if e = cp CHR ''t'' then Some 9
      else None)"

text \<open>
  After a \<^verbatim>\<open>\uXXXX\<close> escape that is a high surrogate: a following \<^verbatim>\<open>\uXXXX\<close> escape
  that is a low surrogate, and the input after it.
\<close>

definition low_surrogate :: "pystr \<Rightarrow> (nat \<times> pystr) option" where
  "low_surrogate s =
     (case s of
        b # u # g1 # g2 # g3 # g4 # r \<Rightarrow>
          if b = cp CHR 0x5C \<and> u = cp CHR ''u'' then
            (case hex4 g1 g2 g3 g4 of
               None \<Rightarrow> None
             | Some u2 \<Rightarrow> if 0xDC00 \<le> u2 \<and> u2 \<le> 0xDFFF then Some (u2, r) else None)
          else None
      | _ \<Rightarrow> None)"

lemma low_surrogate_shorter:
  "low_surrogate s = Some (u2, r) \<Longrightarrow> length r < length s"
  by (auto simp: low_surrogate_def split: list.splits if_splits option.splits)

text \<open>
  The escape after a backslash: the character it denotes and the input after it. A high
  surrogate directly followed by a low one is joined into one code point; any other
  \<^verbatim>\<open>\uXXXX\<close> stands alone.
\<close>

definition scan_escape :: "pystr \<Rightarrow> (nat \<times> pystr) option" where
  "scan_escape s =
     (case s of
        [] \<Rightarrow> None
      | e # es \<Rightarrow>
          if e = cp CHR ''u'' then
            (case es of
               h1 # h2 # h3 # h4 # r \<Rightarrow>
                 (case hex4 h1 h2 h3 h4 of
                    None \<Rightarrow> None
                  | Some u \<Rightarrow>
                      (case (if 0xD800 \<le> u \<and> u \<le> 0xDBFF then low_surrogate r else None) of
                         Some (u2, r2) \<Rightarrow> Some (0x10000 + (u - 0xD800) * 1024 + (u2 - 0xDC00), r2)
                       | None \<Rightarrow> Some (u, r)))
             | _ \<Rightarrow> None)
          else
            (case escape_char e of
               None \<Rightarrow> None
             | Some x \<Rightarrow> Some (x, es)))"

lemma scan_escape_shorter:
  assumes "scan_escape s = Some (x, r)"
  shows "length r < length s"
proof (cases s)
  case Nil
  with assms show ?thesis by (simp add: scan_escape_def)
next
  case (Cons e es)
  show ?thesis
  proof (cases "e = cp CHR ''u''")
    case False
    with assms Cons show ?thesis
      by (auto simp: scan_escape_def split: option.splits)
  next
    case True
    with assms Cons obtain h1 h2 h3 h4 r0 u where es: "es = h1 # h2 # h3 # h4 # r0"
      and r: "(case (if 0xD800 \<le> u \<and> u \<le> 0xDBFF then low_surrogate r0 else None) of
                 Some (u2, r2) \<Rightarrow> Some (0x10000 + (u - 0xD800) * 1024 + (u2 - 0xDC00), r2)
               | None \<Rightarrow> Some (u, r0)) = Some (x, r)"
      by (auto simp: scan_escape_def split: list.splits option.splits)
    from r have "length r \<le> length r0"
      by (auto split: option.splits if_splits dest: low_surrogate_shorter)
    with es Cons show ?thesis by simp
  qed
qed

text \<open>
  \<open>scanstring acc s\<close> reads a string whose opening quote has been consumed: the decoded
  characters (after \<open>acc\<close>) and the input after the closing quote. A raw control
  character ends the scan with an error (strict mode).
\<close>

function scanstring :: "pystr \<Rightarrow> pystr \<Rightarrow> (pystr \<times> pystr) option" where
  "scanstring acc [] = None"
| "scanstring acc (c # cs) =
     (if c = cp CHR 0x22 then Some (acc, cs)
      else if c = cp CHR 0x5C then
        (case scan_escape cs of
           None \<Rightarrow> None
         | Some (x, r) \<Rightarrow> scanstring (acc @ [x]) r)
      else if c \<le> 31 then None
      else scanstring (acc @ [c]) cs)"
  by pat_completeness auto
termination
  by (relation "measure (\<lambda>(acc, s). length s)")
     (auto dest: scan_escape_shorter)

lemma scanstring_shorter:
  "scanstring acc s = Some (x, r) \<Longrightarrow> length r < length s"
proof (induction acc s rule: scanstring.induct)
  case (1 acc)
  then show ?case by simp
next
  case (2 acc c cs)
  show ?case
  proof (cases "c = cp CHR 0x22")
    case True
    with "2.prems" show ?thesis by simp
  next
    case q: False
    show ?thesis
    proof (cases "c = cp CHR 0x5C")
      case True
      with q "2.prems" obtain y r0 where e: "scan_escape cs = Some (y, r0)"
        and s: "scanstring (acc @ [y]) r0 = Some (x, r)"
        by (auto split: option.splits)
      from "2.IH"(1) [OF q True e refl s] scan_escape_shorter [OF e]
      show ?thesis by simp
    next
      case b: False
      with q "2.prems" have c: "\<not> c \<le> 31" and s: "scanstring (acc @ [c]) cs = Some (x, r)"
        by (auto split: if_splits)
      from "2.IH"(2) [OF q b c s] show ?thesis by simp
    qed
  qed
qed

text \<open>
  The exponent of a number, \<^verbatim>\<open>[eE][-+]?[0-9]+\<close>: its value and the input after it;
  \<open>None\<close> when the input does not start with a complete exponent.
\<close>

definition scan_exponent :: "pystr \<Rightarrow> (int \<times> pystr) option" where
  "scan_exponent s =
     (case s of
        [] \<Rightarrow> None
      | e # t \<Rightarrow>
          if e = cp CHR ''e'' \<or> e = cp CHR ''E'' then
            (let signed = (case t of [] \<Rightarrow> False | g # _ \<Rightarrow> g = cp CHR ''-'' \<or> g = cp CHR ''+'');
                 negative = (case t of [] \<Rightarrow> False | g # _ \<Rightarrow> g = cp CHR ''-'');
                 t1 = (if signed then tl t else t)
             in case t1 of
                  [] \<Rightarrow> None
                | d # _ \<Rightarrow>
                    if is_digit d then
                      Some ((if negative then - 1 else 1) * int (digits_value (takeWhile is_digit t1)),
                            dropWhile is_digit t1)
                    else None)
          else None)"

text \<open>
  A number, \<^verbatim>\<open>-?(0|[1-9][0-9]*)(\.[0-9]+)?([eE][-+]?[0-9]+)?\<close>, matched as far as it
  goes: an \<^verbatim>\<open>int\<close> when it has neither fraction nor exponent, a \<^verbatim>\<open>float\<close> otherwise.
\<close>

definition scan_number :: "pystr \<Rightarrow> (pyobj \<times> pystr) option" where
  "scan_number s =
     (let negative = (case s of [] \<Rightarrow> False | g # _ \<Rightarrow> g = cp CHR ''-'');
          s1 = (if negative then tl s else s)
      in case s1 of
           [] \<Rightarrow> None
         | d # ds \<Rightarrow>
             if is_digit d then
               (let ipart = (if d = cp CHR ''0'' then [d] else d # takeWhile is_digit ds);
                    s2 = (if d = cp CHR ''0'' then ds else dropWhile is_digit ds);
                    has_frac = (case s2 of p # f # _ \<Rightarrow> p = cp CHR ''.'' \<and> is_digit f | _ \<Rightarrow> False);
                    frac = (if has_frac then takeWhile is_digit (tl s2) else []);
                    s3 = (if has_frac then dropWhile is_digit (tl s2) else s2);
                    sign = (if negative then - 1 else 1)
                in case scan_exponent s3 of
                     None \<Rightarrow>
                       if has_frac then
                         Some (PyFloat (Finite (of_int sign * of_nat (digits_value (ipart @ frac))
                                 / 10 ^ length frac)), s3)
                       else Some (PyInt (sign * int (digits_value ipart)), s3)
                   | Some (e, s4) \<Rightarrow>
                       Some (PyFloat (Finite (of_int sign * of_nat (digits_value (ipart @ frac))
                               / 10 ^ length frac * (if 0 \<le> e then 10 ^ nat e else 1 / 10 ^ nat (- e)))),
                             s4))
             else None)"

lemma skip_ws_length: "length (skip_ws s) \<le> length s"
  by (simp add: skip_ws_def length_dropWhile_le)

lemma skip_ws_Cons_shorter: "skip_ws s = d # ds \<Longrightarrow> length ds < length s"
  using skip_ws_length [of s] by simp

text \<open>
  The scanner. \<open>scan_once s\<close> reads one value at the start of \<open>s\<close>; \<open>scan_members\<close>
  reads the items of an object from just after the opening quote of a key, and
  \<open>scan_elements\<close> the elements of an array from the start of an element, each up to
  and including the closing bracket. The tests \<open>length s \<le> length r\<close> on the input left
  by a value never succeed (\<open>scan_members_unguarded\<close> and \<open>scan_elements_unguarded\<close>
  below): they are there for the termination proof only.
\<close>

function scan_once :: "pystr \<Rightarrow> (pyobj \<times> pystr) option"
  and scan_members :: "(pystr \<times> pyobj) list \<Rightarrow> pystr \<Rightarrow> ((pystr \<times> pyobj) list \<times> pystr) option"
  and scan_elements :: "pyobj list \<Rightarrow> pystr \<Rightarrow> (pyobj list \<times> pystr) option"
where
  "scan_once [] = None"
| "scan_once (c # cs) =
     (if c = cp CHR 0x22 then
        (case scanstring [] cs of
           None \<Rightarrow> None
         | Some (x, r) \<Rightarrow> Some (PyStr x, r))
      else if c = cp CHR ''{'' then
        (case skip_ws cs of
           [] \<Rightarrow> None
         | d # ds \<Rightarrow>
             if d = cp CHR ''}'' then Some (PyDict [], ds)
             else if d = cp CHR 0x22 then
               (case scan_members [] ds of
                  None \<Rightarrow> None
                | Some (kvs, r) \<Rightarrow> Some (PyDict kvs, r))
             else None)
      else if c = cp CHR ''['' then
        (case skip_ws cs of
           [] \<Rightarrow> None
         | d # ds \<Rightarrow>
             if d = cp CHR '']'' then Some (PyList [], ds)
             else
               (case scan_elements [] (d # ds) of
                  None \<Rightarrow> None
                | Some (vs, r) \<Rightarrow> Some (PyList vs, r)))
      else if prefix (str ''null'') (c # cs) then Some (PyNone, drop 4 (c # cs))
      else if prefix (str ''true'') (c # cs) then Some (PyBool True, drop 4 (c # cs))
      else if prefix (str ''false'') (c # cs) then Some (PyBool False, drop 5 (c # cs))
      else
        (case scan_number (c # cs) of
           Some n \<Rightarrow> Some n
         | None \<Rightarrow>
             if prefix (str ''NaN'') (c # cs) then Some (PyFloat NaN, drop 3 (c # cs))
             else if prefix (str ''Infinity'') (c # cs) then Some (PyFloat PosInf, drop 8 (c # cs))
             else if prefix (str ''-Infinity'') (c # cs) then Some (PyFloat NegInf, drop 9 (c # cs))
             else None))"
| "scan_members acc s =
     (case scanstring [] s of
        None \<Rightarrow> None
      | Some (key, r1) \<Rightarrow>
          (case skip_ws r1 of
             [] \<Rightarrow> None
           | c # r2 \<Rightarrow>
               if c = cp CHR '':'' then
                 (case scan_once (skip_ws r2) of
                    None \<Rightarrow> None
                  | Some (v, r3) \<Rightarrow>
                      if length s \<le> length r3 then None
                      else
                        (case skip_ws r3 of
                           [] \<Rightarrow> None
                         | d # r4 \<Rightarrow>
                             if d = cp CHR ''}'' then Some (AList.update key v acc, r4)
                             else if d = cp CHR '','' then
                               (case skip_ws r4 of
                                  [] \<Rightarrow> None
                                | q # r5 \<Rightarrow>
                                    if q = cp CHR 0x22 then scan_members (AList.update key v acc) r5
                                    else None)
                             else None))
               else None))"
| "scan_elements acc s =
     (case scan_once s of
        None \<Rightarrow> None
      | Some (v, r1) \<Rightarrow>
          if length s \<le> length r1 then None
          else
            (case skip_ws r1 of
               [] \<Rightarrow> None
             | d # r2 \<Rightarrow>
                 if d = cp CHR '']'' then Some (acc @ [v], r2)
                 else if d = cp CHR '','' then scan_elements (acc @ [v]) (skip_ws r2)
                 else None))"
  by pat_completeness auto
termination
proof (relation "measures
    [\<lambda>x. case x of Inl s \<Rightarrow> length s | Inr (Inl (acc, s)) \<Rightarrow> length s | Inr (Inr (acc, s)) \<Rightarrow> length s,
     \<lambda>x. case x of Inl s \<Rightarrow> 0 | Inr y \<Rightarrow> 1]", goal_cases)
  case 1
  show ?case by simp
next
  case (2 c cs d ds)
  then show ?case using skip_ws_Cons_shorter [of cs d ds] by simp
next
  case (3 c cs d ds)
  then show ?case using skip_ws_length [of cs] by simp
next
  case (4 acc s key_r1 key r1 c r2)
  then show ?case
    using scanstring_shorter [of "[]" s key r1] skip_ws_Cons_shorter [of r1 c r2]
      skip_ws_length [of r2]
    by simp
next
  case (5 acc s key_r1 key r1 c r2 v_r3 v r3 d r4 q r5)
  then show ?case
    using skip_ws_Cons_shorter [of r3 d r4] skip_ws_Cons_shorter [of r4 q r5] by simp
next
  case (6 acc s)
  show ?case by simp
next
  case (7 acc s v_r1 v r1 d r2)
  then show ?case
    using skip_ws_Cons_shorter [of r1 d r2] skip_ws_length [of r2] by simp
qed

declare scan_members.simps [simp del] scan_elements.simps [simp del]

text \<open>
  Every scan consumes input, so the two length tests are never met: the scanner
  satisfies its equations without them.
\<close>

lemma scan_exponent_shorter:
  assumes "scan_exponent s = Some (e, r)"
  shows "length r \<le> length s"
proof (cases s)
  case Nil
  with assms show ?thesis by (simp add: scan_exponent_def)
next
  case (Cons c t)
  define t1 where "t1 = (if (case t of [] \<Rightarrow> False | g # _ \<Rightarrow> g = cp CHR ''-'' \<or> g = cp CHR ''+'') then tl t else t)"
  have "length t1 \<le> length t" by (simp add: t1_def)
  moreover from assms Cons have "r = dropWhile is_digit t1"
    by (auto simp: scan_exponent_def Let_def t1_def split: if_splits list.splits)
  ultimately show ?thesis
    using Cons length_dropWhile_le [of is_digit t1] by simp
qed

lemma scan_number_shorter:
  assumes "scan_number s = Some (v, r)"
  shows "length r < length s"
proof -
  define s1 where "s1 = (if (case s of [] \<Rightarrow> False | g # _ \<Rightarrow> g = cp CHR ''-'') then tl s else s)"
  have l1: "length s1 \<le> length s" by (simp add: s1_def)
  from assms obtain d ds where s1: "s1 = d # ds"
    by (cases s1) (auto simp: scan_number_def Let_def s1_def)
  define s2 where "s2 = (if d = cp CHR ''0'' then ds else dropWhile is_digit ds)"
  define s3 where "s3 = (if (case s2 of p # f # _ \<Rightarrow> p = cp CHR ''.'' \<and> is_digit f | _ \<Rightarrow> False)
                         then dropWhile is_digit (tl s2) else s2)"
  have l2: "length s2 \<le> length ds"
    by (simp add: s2_def length_dropWhile_le)
  have l3: "length s3 \<le> length s2"
    using length_dropWhile_le [of is_digit "tl s2"] by (auto simp: s3_def)
  from assms s1 have "r = s3 \<or> (\<exists>e. scan_exponent s3 = Some (e, r))"
    unfolding scan_number_def Let_def s1_def [symmetric]
    by (auto simp: s2_def s3_def split: if_splits option.splits)
  then have "length r \<le> length s3"
    by (auto dest: scan_exponent_shorter)
  with l1 l2 l3 s1 show ?thesis by simp
qed

lemma scan_shorter:
  "scan_once s = Some (v, r) \<Longrightarrow> length r < length s"
  "scan_members acc s' = Some (kvs, r') \<Longrightarrow> length r' < length s'"
  "scan_elements vs s'' = Some (ws, r'') \<Longrightarrow> length r'' < length s''"
proof (induction s and acc s' and vs s'' arbitrary: v r and kvs r' and ws r''
    rule: scan_once_scan_members_scan_elements.induct)
  case 1
  then show ?case by simp
next
  case (2 c cs)
  show ?case
  proof (cases "c = cp CHR 0x22")
    case True
    with "2.prems" show ?thesis
      by (auto split: option.splits dest: scanstring_shorter)
  next
    case q: False
    show ?thesis
    proof (cases "c = cp CHR ''{''")
      case True
      with q "2.prems" obtain d ds where ws: "skip_ws cs = d # ds"
        by (cases "skip_ws cs") auto
      show ?thesis
      proof (cases "d = cp CHR ''}''")
        case True
        with q \<open>c = cp CHR ''{''\<close> ws "2.prems" show ?thesis
          using skip_ws_Cons_shorter [OF ws] by auto
      next
        case False
        with q \<open>c = cp CHR ''{''\<close> ws "2.prems" obtain kvs where d: "d = cp CHR 0x22"
          and m: "scan_members [] ds = Some (kvs, r)"
          by (auto split: if_splits option.splits)
        from "2.IH"(1) [OF q \<open>c = cp CHR ''{''\<close> ws False d m] skip_ws_Cons_shorter [OF ws]
        show ?thesis by simp
      qed
    next
      case b: False
      show ?thesis
      proof (cases "c = cp CHR ''[''")
        case True
        with q b "2.prems" obtain d ds where ws: "skip_ws cs = d # ds"
          by (cases "skip_ws cs") auto
        show ?thesis
        proof (cases "d = cp CHR '']''")
          case True
          with q b \<open>c = cp CHR ''[''\<close> ws "2.prems" show ?thesis
            using skip_ws_Cons_shorter [OF ws] by auto
        next
          case False
          with q b \<open>c = cp CHR ''[''\<close> ws "2.prems" obtain vs where
            m: "scan_elements [] (d # ds) = Some (vs, r)"
            by (auto split: option.splits)
          from "2.IH"(2) [OF q b \<open>c = cp CHR ''[''\<close> ws False m] skip_ws_length [of cs] ws
          show ?thesis by simp
        qed
      next
        case False
        with q b "2.prems" show ?thesis
          by (auto split: if_splits option.splits dest: scan_number_shorter)
      qed
    qed
  qed
next
  case (3 acc s)
  from "3.prems" obtain key r1 where k: "scanstring [] s = Some (key, r1)"
    by (subst (asm) scan_members.simps) (auto split: option.splits)
  from "3.prems" k obtain c r2 where ws: "skip_ws r1 = c # r2"
    by (subst (asm) scan_members.simps) (cases "skip_ws r1"; auto)
  from "3.prems" k ws obtain v r3 where c: "c = cp CHR '':''"
    and v: "scan_once (skip_ws r2) = Some (v, r3)"
    by (subst (asm) scan_members.simps) (auto split: if_splits option.splits)
  from "3.prems" k ws c v obtain d r4 where g: "\<not> length s \<le> length r3" and ws2: "skip_ws r3 = d # r4"
    by (subst (asm) scan_members.simps) (cases "skip_ws r3"; auto split: if_splits)
  show ?case
  proof (cases "d = cp CHR ''}''")
    case True
    with "3.prems" k ws c v g ws2 have "r' = r4"
      by (subst (asm) scan_members.simps) auto
    with g skip_ws_Cons_shorter [OF ws2] show ?thesis by simp
  next
    case False
    with "3.prems" k ws c v g ws2 obtain q r5 where cm: "d = cp CHR '',''"
      and ws3: "skip_ws r4 = q # r5" and qq: "q = cp CHR 0x22"
      and m: "scan_members (AList.update key v acc) r5 = Some (kvs, r')"
      by (subst (asm) scan_members.simps) (cases "skip_ws r4"; auto split: if_splits)
    from "3.IH"(2) [OF k refl ws c v refl g ws2 False cm ws3 qq m]
      skip_ws_Cons_shorter [OF ws2] skip_ws_Cons_shorter [OF ws3] g
    show ?thesis by simp
  qed
next
  case (4 acc s)
  from "4.prems" obtain v r1 where v: "scan_once s = Some (v, r1)"
    by (subst (asm) scan_elements.simps) (auto split: option.splits)
  from "4.prems" v obtain d r2 where g: "\<not> length s \<le> length r1" and ws: "skip_ws r1 = d # r2"
    by (subst (asm) scan_elements.simps) (cases "skip_ws r1"; auto split: if_splits)
  show ?case
  proof (cases "d = cp CHR '']''")
    case True
    with "4.prems" v g ws have "r'' = r2"
      by (subst (asm) scan_elements.simps) auto
    with g skip_ws_Cons_shorter [OF ws] show ?thesis by simp
  next
    case False
    with "4.prems" v g ws have cm: "d = cp CHR '',''"
      and m: "scan_elements (acc @ [v]) (skip_ws r2) = Some (ws, r'')"
      by (subst (asm) scan_elements.simps; auto split: if_splits)+
    from "4.IH"(2) [OF v refl g ws False cm m] skip_ws_Cons_shorter [OF ws] skip_ws_length [of r2] g
    show ?thesis by simp
  qed
qed

lemma scan_elements_unguarded:
  "scan_elements acc s =
     (case scan_once s of
        None \<Rightarrow> None
      | Some (v, r1) \<Rightarrow>
          (case skip_ws r1 of
             [] \<Rightarrow> None
           | d # r2 \<Rightarrow>
               if d = cp CHR '']'' then Some (acc @ [v], r2)
               else if d = cp CHR '','' then scan_elements (acc @ [v]) (skip_ws r2)
               else None))"
proof (cases "scan_once s")
  case None
  then show ?thesis by (subst scan_elements.simps) simp
next
  case (Some p)
  obtain v r1 where p: "p = (v, r1)" by (cases p)
  with Some have "\<not> length s \<le> length r1"
    using scan_shorter(1) [of s v r1] by simp
  with Some p show ?thesis by (subst scan_elements.simps) simp
qed

lemma scan_members_unguarded:
  "scan_members acc s =
     (case scanstring [] s of
        None \<Rightarrow> None
      | Some (key, r1) \<Rightarrow>
          (case skip_ws r1 of
             [] \<Rightarrow> None
           | c # r2 \<Rightarrow>
               if c = cp CHR '':'' then
                 (case scan_once (skip_ws r2) of
                    None \<Rightarrow> None
                  | Some (v, r3) \<Rightarrow>
                      (case skip_ws r3 of
                         [] \<Rightarrow> None
                       | d # r4 \<Rightarrow>
                           if d = cp CHR ''}'' then Some (AList.update key v acc, r4)
                           else if d = cp CHR '','' then
                             (case skip_ws r4 of
                                [] \<Rightarrow> None
                              | q # r5 \<Rightarrow>
                                  if q = cp CHR 0x22 then scan_members (AList.update key v acc) r5
                                  else None)
                           else None))
               else None))"
proof (cases "scanstring [] s")
  case None
  then show ?thesis by (subst scan_members.simps) simp
next
  case (Some p)
  obtain key r1 where p: "p = (key, r1)" by (cases p)
  show ?thesis
  proof (cases "skip_ws r1")
    case Nil
    with Some p show ?thesis by (subst scan_members.simps) simp
  next
    case (Cons c r2)
    show ?thesis
    proof (cases "scan_once (skip_ws r2)")
      case None
      with Some p Cons show ?thesis by (subst scan_members.simps) simp
    next
      case v: (Some pv)
      obtain v r3 where pv: "pv = (v, r3)" by (cases pv)
      have "\<not> length s \<le> length r3"
        using Some p Cons v pv scanstring_shorter [of "[]" s key r1]
          skip_ws_Cons_shorter [of r1 c r2] skip_ws_length [of r2]
          scan_shorter(1) [of "skip_ws r2" v r3]
        by simp
      with Some p Cons v pv show ?thesis by (subst scan_members.simps) simp
    qed
  qed
qed

text \<open>
  \<^verbatim>\<open>json.loads(s)\<close> for a \<^verbatim>\<open>str\<close>: a leading byte-order mark is an error; otherwise
  one value, with JSON whitespace allowed before and after it and nothing else.
\<close>

definition json_loads :: "pystr \<Rightarrow> pyobj option" where
  "json_loads s =
     (if prefix [0xFEFF] s then None
      else
        (case scan_once (skip_ws s) of
           None \<Rightarrow> None
         | Some (v, r) \<Rightarrow> if skip_ws r = [] then Some v else None))"

section \<open>Operations on Python objects\<close>

text \<open>
  The numeric value of an \<^verbatim>\<open>int\<close>, a \<^verbatim>\<open>bool\<close> (a subclass of \<^verbatim>\<open>int\<close>) or a
  \<^verbatim>\<open>float\<close>; \<open>None\<close> for every other object.
\<close>

fun as_number :: "pyobj \<Rightarrow> pyfloat option" where
  "as_number (PyInt n) = Some (Finite (of_int n))"
| "as_number (PyBool b) = Some (Finite (if b then 1 else 0))"
| "as_number (PyFloat x) = Some x"
| "as_number v = None"

text \<open>\<^verbatim>\<open>x < y\<close> and \<^verbatim>\<open>x <= y\<close> on numbers: every comparison with a NaN is false.\<close>

fun float_lt :: "pyfloat \<Rightarrow> pyfloat \<Rightarrow> bool" where
  "float_lt NaN y = False"
| "float_lt x NaN = False"
| "float_lt (Finite x) (Finite y) = (x < y)"
| "float_lt x NegInf = False"
| "float_lt NegInf y = True"
| "float_lt PosInf y = False"
| "float_lt x PosInf = True"

fun float_le :: "pyfloat \<Rightarrow> pyfloat \<Rightarrow> bool" where
  "float_le NaN y = False"
| "float_le x NaN = False"
| "float_le (Finite x) (Finite y) = (x \<le> y)"
| "float_le NegInf y = True"
| "float_le x NegInf = False"
| "float_le x PosInf = True"
| "float_le PosInf y = False"

text \<open>
  The ordering comparisons of the program, each between an object and an \<^verbatim>\<open>int\<close>:
  a number is compared by value, and any other object raises \<^verbatim>\<open>TypeError\<close>.
\<close>

definition py_lt :: "pyobj \<Rightarrow> pyobj \<Rightarrow> py_exc + bool" where
  "py_lt a b =
     (case (as_number a, as_number b) of
        (Some x, Some y) \<Rightarrow> Inr (float_lt x y)
      | _ \<Rightarrow> Inl TypeError)"

definition py_le :: "pyobj \<Rightarrow> pyobj \<Rightarrow> py_exc + bool" where
  "py_le a b =
     (case (as_number a, as_number b) of
        (Some x, Some y) \<Rightarrow> Inr (float_le x y)
      | _ \<Rightarrow> Inl TypeError)"

text \<open>
  \<^verbatim>\<open>min(a, b)\<close> and \<^verbatim>\<open>max(a, b)\<close>: the first argument stays unless the second is
  strictly smaller (greater).
\<close>

definition py_min :: "pyobj \<Rightarrow> pyobj \<Rightarrow> py_exc + pyobj" where
  "py_min a b = (case py_lt b a of Inl e \<Rightarrow> Inl e | Inr lt \<Rightarrow> Inr (if lt then b else a))"

definition py_max :: "pyobj \<Rightarrow> pyobj \<Rightarrow> py_exc + pyobj" where
  "py_max a b = (case py_lt a b of Inl e \<Rightarrow> Inl e | Inr gt \<Rightarrow> Inr (if gt then b else a))"

text \<open>
  \<^verbatim>\<open>k in obj\<close> for a string \<open>k\<close>: a key of a dict, an element of a list, a substring
  of a string; any other object is not iterable.
\<close>

fun py_contains :: "pystr \<Rightarrow> pyobj \<Rightarrow> py_exc + bool" where
  "py_contains k (PyDict kvs) = Inr (map_of kvs k \<noteq> None)"
| "py_contains k (PyList vs) = Inr (List.member vs (PyStr k))"
| "py_contains k (PyStr s) = Inr (str_contains k s)"
| "py_contains k v = Inl TypeError"

text \<open>\<^verbatim>\<open>obj[k]\<close> and \<^verbatim>\<open>obj[k] = v\<close> for a string \<open>k\<close>: only a dict takes a string key.\<close>

fun py_getitem :: "pyobj \<Rightarrow> pystr \<Rightarrow> py_exc + pyobj" where
  "py_getitem (PyDict kvs) k = (case map_of kvs k of None \<Rightarrow> Inl (KeyError k) | Some v \<Rightarrow> Inr v)"
| "py_getitem obj k = Inl TypeError"

fun py_setitem :: "pyobj \<Rightarrow> pystr \<Rightarrow> pyobj \<Rightarrow> py_exc + pyobj" where
  "py_setitem (PyDict kvs) k v = Inr (PyDict (AList.update k v kvs))"
| "py_setitem obj k v = Inl TypeError"

section \<open>agent.py: the response normalizer\<close>

text \<open>
  Lines 196 to 205 of \<^verbatim>\<open>_parse_agent_response\<close>: the text handed to the decoder. With a
  \<^verbatim>\<open>```json\<close> marker it is the part between the marker and the next \<^verbatim>\<open>```\<close>; with
  only a \<^verbatim>\<open>```\<close> marker, the part between the first two; otherwise the whole reply;
  stripped in each case.
\<close>

definition extract_json_text :: "pystr \<Rightarrow> pystr" where
  "extract_json_text response_text =
     (if str_contains (str ''```json'') response_text then
        (let json_start = str_find response_text (str ''```json'') 0 + 7;
             json_end = str_find response_text (str ''```'') json_start
         in strip (slice response_text json_start json_end))
      else if str_contains (str ''```'') response_text then
        (let json_start = str_find response_text (str ''```'') 0 + 3;
             json_end = str_find response_text (str ''```'') json_start
         in strip (slice response_text json_start json_end))
      else strip response_text)"

definition required_fields :: "pystr list" where
  "required_fields = [str ''score'', str ''optimized_content'', str ''suggestions'']"

text \<open>The loop over \<open>required_fields\<close>: the first absent field raises \<^verbatim>\<open>ValueError\<close>.\<close>

fun check_required :: "pystr list \<Rightarrow> pyobj \<Rightarrow> py_exc + unit" where
  "check_required [] analysis = Inr ()"
| "check_required (field # fields) analysis =
     (case py_contains field analysis of
        Inl e \<Rightarrow> Inl e
      | Inr present \<Rightarrow>
          if present then check_required fields analysis
          else Inl (ValueError (str ''Missing required field: '' @ field)))"

text \<open>\<^verbatim>\<open>0 <= score <= 100\<close>: the second comparison is made only when the first holds.\<close>

definition score_in_range :: "pyobj \<Rightarrow> py_exc + bool" where
  "score_in_range score =
     (case py_le (PyInt 0) score of
        Inl e \<Rightarrow> Inl e
      | Inr lower \<Rightarrow> if lower then py_le score (PyInt 100) else Inr False)"

text \<open>\<^verbatim>\<open>max(0, min(100, score))\<close>.\<close>

definition clamp_score :: "pyobj \<Rightarrow> py_exc + pyobj" where
  "clamp_score score =
     (case py_min (PyInt 100) score of
        Inl e \<Rightarrow> Inl e
      | Inr m \<Rightarrow> py_max (PyInt 0) m)"

text \<open>The dict returned by the \<^verbatim>\<open>except json.JSONDecodeError\<close> branch.\<close>

definition fallback_analysis :: pyobj where
  "fallback_analysis =
     PyDict
       [(str ''score'', PyFloat (Finite 70)),
        (str ''optimized_content'',
           PyStr (str ''Analysis parsing failed. Original content returned.'')),
        (str ''suggestions'',
           PyList
             [PyDict
                [(str ''category'', PyStr (str ''System'')),
                 (str ''description'',
                    PyStr (str ''Unable to parse AI response. Please try again.'')),
                 (str ''priority'', PyInt 1)]]),
        (str ''reasoning'', PyStr (str ''Response parsing error''))]"

text \<open>
  Lines 209 to 220 of \<^verbatim>\<open>_parse_agent_response\<close>: the checks on the decoded object.
\<close>

definition validate_analysis :: "pyobj \<Rightarrow> py_exc + pyobj" where
  "validate_analysis analysis =
     (case check_required required_fields analysis of
        Inl e \<Rightarrow> Inl e
      | Inr u \<Rightarrow>
          (case py_getitem analysis (str ''score'') of
             Inl e \<Rightarrow> Inl e
           | Inr score \<Rightarrow>
               (case score_in_range score of
                  Inl e \<Rightarrow> Inl e
                | Inr in_range \<Rightarrow>
                    if in_range then Inr analysis
                    else
                      (case clamp_score score of
                         Inl e \<Rightarrow> Inl e
                       | Inr clamped \<Rightarrow> py_setitem analysis (str ''score'') clamped))))"

text \<open>
  \<^verbatim>\<open>_parse_agent_response\<close>. The only handler of its \<^verbatim>\<open>try\<close> block catches
  \<^verbatim>\<open>json.JSONDecodeError\<close>, which only the decoder raises; every other exception
  (\<open>Inl\<close>) leaves the function.
\<close>

definition parse_agent_response :: "pystr \<Rightarrow> py_exc + pyobj" where
  "parse_agent_response response_text =
     (case json_loads (extract_json_text response_text) of
        None \<Rightarrow> Inr fallback_analysis
      | Some analysis \<Rightarrow> validate_analysis analysis)"

text \<open>The variable \<^verbatim>\<open>json_start\<close> of the function: the index just after the opening marker.\<close>

definition json_start :: "pystr \<Rightarrow> int" where
  "json_start response_text =
     (if str_contains (str ''```json'') response_text
      then str_find response_text (str ''```json'') 0 + 7
      else str_find response_text (str ''```'') 0 + 3)"

section \<open>config.py and models.py\<close>

text \<open>The fields of \<^verbatim>\<open>Settings\<close> the analysis reads (defaults: 10000 characters, 30 seconds).\<close>

record settings =
  model_deployment_name :: pystr
  max_analysis_length :: int
  request_timeout :: int

definition default_settings :: settings where
  "default_settings =
     \<lparr>model_deployment_name = str ''gpt-4o-deployment'',
      max_analysis_length = 10000,
      request_timeout = 30\<rparr>"

text \<open>\<^verbatim>\<open>ResumeAnalysisRequest\<close>: the body of a request, and the request once validated.\<close>

record resume_analysis_request =
  content :: pystr
  user_id :: pystr

text \<open>
  Why pydantic rejects a field: a length bound of its \<^verbatim>\<open>Field\<close>, or the
  \<^verbatim>\<open>ValueError\<close> of its validator.
\<close>

datatype field_error = StringTooShort nat | StringTooLong nat | ValidatorFailed py_exc

text \<open>\<^verbatim>\<open>validate_content\<close>, the validator of \<^verbatim>\<open>content\<close>.\<close>

definition validate_content :: "pystr \<Rightarrow> py_exc + pystr" where
  "validate_content v =
     (if strip v = [] then Inl (ValueError (str ''Content cannot be empty or whitespace''))
      else Inr (strip v))"

text \<open>
  The validation of one field. pydantic checks the length bounds of the \<^verbatim>\<open>Field\<close> on
  the value as received; a \<^verbatim>\<open>field_validator\<close> (mode \<^verbatim>\<open>after\<close>, the default) runs
  only on a value that passed them, and what it returns becomes the field.
\<close>

definition check_length :: "nat \<Rightarrow> nat \<Rightarrow> pystr \<Rightarrow> field_error option" where
  "check_length min_length max_length v =
     (if length v < min_length then Some (StringTooShort min_length)
      else if max_length < length v then Some (StringTooLong max_length)
      else None)"

definition content_field :: "pystr \<Rightarrow> field_error + pystr" where
  "content_field v =
     (case check_length 10 10000 v of
        Some err \<Rightarrow> Inl err
      | None \<Rightarrow>
          (case validate_content v of
             Inl e \<Rightarrow> Inl (ValidatorFailed e)
           | Inr v' \<Rightarrow> Inr v'))"

definition user_id_field :: "pystr \<Rightarrow> field_error + pystr" where
  "user_id_field v =
     (case check_length 1 100 v of
        Some err \<Rightarrow> Inl err
      | None \<Rightarrow> Inr v)"

text \<open>
  The validation of a request body: every field is validated, and the body is rejected
  with the errors of all fields that failed, each under its field's name.
\<close>

definition validate_request ::
  "resume_analysis_request \<Rightarrow> (pystr \<times> field_error) list + resume_analysis_request" where
  "validate_request body =
     (case (content_field (content body), user_id_field (user_id body)) of
        (Inr c, Inr u) \<Rightarrow> Inr \<lparr>content = c, user_id = u\<rparr>
      | (Inl e1, Inr u) \<Rightarrow> Inl [(str ''content'', e1)]
      | (Inr c, Inl e2) \<Rightarrow> Inl [(str ''user_id'', e2)]
      | (Inl e1, Inl e2) \<Rightarrow> Inl [(str ''content'', e1), (str ''user_id'', e2)])"

text \<open>\<^verbatim>\<open>Suggestion\<close> and \<^verbatim>\<open>ResumeAnalysisResponse\<close>.\<close>

record suggestion =
  category :: pystr
  description :: pystr
  priority :: int

record analysis_metadata =
  model_used :: pystr
  content_length :: nat
  metadata_user_id :: pystr

record resume_analysis_response =
  score :: pyfloat
  optimized_content :: pystr
  suggestions :: "suggestion list"
  response_metadata :: analysis_metadata

text \<open>
  What the service relies on and its code does not define: the state of the shared
  agent, the behaviour of the remote agent, and two conversions of pydantic's lax mode.
  \<^item> \<open>get_agent_error\<close>: the exception \<^verbatim>\<open>get_agent()\<close> raises, if it raises one;
  \<^item> \<open>agent_initialized\<close>: whether \<^verbatim>\<open>self._agent\<close> is set;
  \<^item> \<open>agent_run\<close>: how the block that awaits \<^verbatim>\<open>agent.run(prompt)\<close> under the
    timeout ends: with the reply's text, with the timeout error, or with another
    exception;
  \<^item> \<open>lax_int\<close>, \<open>lax_float\<close>: pydantic's conversion to \<^verbatim>\<open>int\<close> (to \<^verbatim>\<open>float\<close>) of a
    value that is not a number of that kind already, \<open>None\<close> when it refuses it.
\<close>

datatype run_outcome = Reply pystr | TimedOut | Failed py_exc

record runtime =
  get_agent_error :: "py_exc option"
  agent_initialized :: bool
  agent_run :: "pystr \<Rightarrow> run_outcome"
  lax_int :: "pyobj \<Rightarrow> int option"
  lax_float :: "pyobj \<Rightarrow> pyfloat option"

text \<open>
  \<^verbatim>\<open>Suggestion(**s)\<close>: \<open>s\<close> must be a mapping; the three fields are required, the
  strings must be strings, and \<^verbatim>\<open>priority\<close> an integer from 1 to 5. Keys that are not
  fields are ignored.
\<close>

definition int_field :: "runtime \<Rightarrow> pyobj \<Rightarrow> int option" where
  "int_field rt v = (case v of PyInt n \<Rightarrow> Some n | _ \<Rightarrow> lax_int rt v)"

definition float_field :: "runtime \<Rightarrow> pyobj \<Rightarrow> pyfloat option" where
  "float_field rt v =
     (case v of
        PyFloat x \<Rightarrow> Some x
      | PyInt n \<Rightarrow> Some (Finite (of_int n))
      | _ \<Rightarrow> lax_float rt v)"

definition make_suggestion :: "runtime \<Rightarrow> pyobj \<Rightarrow> py_exc + suggestion" where
  "make_suggestion rt s =
     (case s of
        PyDict kvs \<Rightarrow>
          (case (map_of kvs (str ''category''), map_of kvs (str ''description''),
                 map_of kvs (str ''priority'')) of
             (Some (PyStr c), Some (PyStr d), Some p) \<Rightarrow>
               (case int_field rt p of
                  None \<Rightarrow> Inl ValidationError
                | Some n \<Rightarrow>
                    if 1 \<le> n \<and> n \<le> 5
                    then Inr \<lparr>category = c, description = d, priority = n\<rparr>
                    else Inl ValidationError)
           | _ \<Rightarrow> Inl ValidationError)
      | _ \<Rightarrow> Inl TypeError)"

text \<open>
  \<^verbatim>\<open>ResumeAnalysisResponse(score=..., optimized_content=..., suggestions=...,
  analysis_metadata=...)\<close>: the score must be a float from 0 to 100 and the content a
  string.
\<close>

definition make_response ::
  "runtime \<Rightarrow> pyobj \<Rightarrow> pyobj \<Rightarrow> suggestion list \<Rightarrow> analysis_metadata
     \<Rightarrow> py_exc + resume_analysis_response" where
  "make_response rt sc oc sugs md =
     (case (float_field rt sc, oc) of
        (Some x, PyStr text) \<Rightarrow>
          if float_le (Finite 0) x \<and> float_le x (Finite 100)
          then Inr \<lparr>score = x, optimized_content = text, suggestions = sugs,
                    response_metadata = md\<rparr>
          else Inl ValidationError
      | _ \<Rightarrow> Inl ValidationError)"

section \<open>agent.py: the orchestrator\<close>

text \<open>The prompt of \<^verbatim>\<open>analyze_resume\<close>, with the content between its two delimiter lines.\<close>

definition build_prompt :: "pystr \<Rightarrow> pystr" where
  "build_prompt text =
     str ''Analyze this resume and provide a comprehensive evaluation:\<newline>\<newline>RESUME CONTENT:\<newline>---\<newline>''
     @ text
     @ str ''\<newline>---\<newline>\<newline>Provide your analysis in the specified JSON format.''"

text \<open>Lines 128 to 130: content longer than the configured maximum is cut to a slice.\<close>

definition truncate_content :: "settings \<Rightarrow> pystr \<Rightarrow> pystr" where
  "truncate_content st text =
     (if max_analysis_length st < int (length text) then slice text 0 (max_analysis_length st)
      else text)"

text \<open>
  Iterating over an object, as the list comprehension over \<^verbatim>\<open>analysis["suggestions"]\<close>
  does: the elements of a list, the characters of a string, the keys of a dict.
\<close>

fun py_iter :: "pyobj \<Rightarrow> py_exc + pyobj list" where
  "py_iter (PyList vs) = Inr vs"
| "py_iter (PyStr s) = Inr (map (\<lambda>c. PyStr [c]) s)"
| "py_iter (PyDict kvs) = Inr (map (\<lambda>kv. PyStr (fst kv)) kvs)"
| "py_iter v = Inl TypeError"

text \<open>\<^verbatim>\<open>[Suggestion(**s) for s in ...]\<close>: the first failure ends the comprehension.\<close>

fun make_suggestions :: "runtime \<Rightarrow> pyobj list \<Rightarrow> py_exc + suggestion list" where
  "make_suggestions rt [] = Inr []"
| "make_suggestions rt (s # ss) =
     (case make_suggestion rt s of
        Inl e \<Rightarrow> Inl e
      | Inr x \<Rightarrow>
          (case make_suggestions rt ss of
             Inl e \<Rightarrow> Inl e
           | Inr xs \<Rightarrow> Inr (x # xs)))"

text \<open>
  What \<^verbatim>\<open>analyze_resume\<close> builds from the normalized reply: the tuple it returns. The
  clock readings of the metadata (processing time, timestamp) are left out.
\<close>

type_synonym analysis_result = "pyobj \<times> pyobj \<times> suggestion list \<times> analysis_metadata"

definition build_result ::
  "runtime \<Rightarrow> settings \<Rightarrow> pystr \<Rightarrow> pystr \<Rightarrow> pyobj \<Rightarrow> py_exc + analysis_result" where
  "build_result rt st text uid analysis =
     (case py_getitem analysis (str ''score'') of
        Inl e \<Rightarrow> Inl e
      | Inr sc \<Rightarrow>
          (case py_getitem analysis (str ''optimized_content'') of
             Inl e \<Rightarrow> Inl e
           | Inr oc \<Rightarrow>
               (case py_getitem analysis (str ''suggestions'') of
                  Inl e \<Rightarrow> Inl e
                | Inr raw \<Rightarrow>
                    (case py_iter raw of
                       Inl e \<Rightarrow> Inl e
                     | Inr items \<Rightarrow>
                         (case make_suggestions rt items of
                            Inl e \<Rightarrow> Inl e
                          | Inr sugs \<Rightarrow>
                              Inr (sc, oc, sugs,
                                   \<lparr>model_used = model_deployment_name st,
                                    content_length = length text,
                                    metadata_user_id = uid\<rparr>))))))"

text \<open>
  \<^verbatim>\<open>analyze_resume\<close> of the agent. The result comes with the prompts submitted to the
  remote agent. A timeout of the remote call is turned into a \<^verbatim>\<open>ValueError\<close> with a
  fixed message; every other exception is raised again as it is.
\<close>

definition analyze_resume ::
  "runtime \<Rightarrow> settings \<Rightarrow> pystr \<Rightarrow> pystr \<Rightarrow> (py_exc + analysis_result) \<times> pystr list" where
  "analyze_resume rt st text uid =
     (if \<not> agent_initialized rt then
        (Inl (RuntimeError (str ''Agent not initialized. Call initialize() first.'')), [])
      else
        (let text' = truncate_content st text;
             prompt = build_prompt text'
         in (case agent_run rt prompt of
               TimedOut \<Rightarrow> Inl (ValueError (str ''Analysis request timed out. Please try again.''))
             | Failed e \<Rightarrow> Inl e
             | Reply reply \<Rightarrow>
                 (case parse_agent_response reply of
                    Inl e \<Rightarrow> Inl e
                  | Inr analysis \<Rightarrow> build_result rt st text' uid analysis),
             [prompt])))"

section \<open>main.py: the endpoint\<close>

text \<open>
  \<^verbatim>\<open>str(e)\<close> of an exception that reaches a response: the message of a \<^verbatim>\<open>ValueError\<close>,
  or the report pydantic writes for its \<^verbatim>\<open>ValidationError\<close> (not spelled out).
\<close>

datatype detail = Message pystr | PydanticReport

datatype response_body =
    Analysis resume_analysis_response
  | ErrorDetail detail
  | RequestErrors "(pystr \<times> field_error) list"

record http_response =
  status_code :: nat
  body :: response_body

text \<open>What a request did: the calls of the orchestrator and the prompts sent out.\<close>

datatype event = OrchestratorCalled pystr pystr | PromptSent pystr

text \<open>
  The two handlers of the endpoint: a \<^verbatim>\<open>ValueError\<close> becomes a 400 with its own
  message, any other exception a 500 with a fixed one.
\<close>

definition error_response :: "py_exc \<Rightarrow> http_response" where
  "error_response e =
     (case e of
        ValueError m \<Rightarrow> \<lparr>status_code = 400, body = ErrorDetail (Message m)\<rparr>
      | ValidationError \<Rightarrow> \<lparr>status_code = 400, body = ErrorDetail PydanticReport\<rparr>
      | _ \<Rightarrow>
          \<lparr>status_code = 500,
           body = ErrorDetail (Message
             (str ''An error occurred during resume analysis. Please try again later.''))\<rparr>)"

text \<open>The endpoint function \<^verbatim>\<open>analyze_resume(request)\<close> of main.py, on a validated request.\<close>

definition analyze_resume_endpoint ::
  "runtime \<Rightarrow> settings \<Rightarrow> resume_analysis_request \<Rightarrow> http_response \<times> event list" where
  "analyze_resume_endpoint rt st request =
     (case get_agent_error rt of
        Some e \<Rightarrow> (error_response e, [])
      | None \<Rightarrow>
          (let (outcome, prompts) = analyze_resume rt st (content request) (user_id request);
               events = OrchestratorCalled (content request) (user_id request) # map PromptSent prompts
           in (case outcome of
                 Inl e \<Rightarrow> (error_response e, events)
               | Inr (sc, oc, sugs, md) \<Rightarrow>
                   (case make_response rt sc oc sugs md of
                      Inl e \<Rightarrow> (error_response e, events)
                    | Inr r \<Rightarrow> (\<lparr>status_code = 200, body = Analysis r\<rparr>, events)))))"

text \<open>
  \<^verbatim>\<open>POST /analyze\<close>. The parameter of the endpoint function is a
  \<^verbatim>\<open>ResumeAnalysisRequest\<close>, so the web framework validates the body before it calls the
  function, and answers a body that fails validation itself, with its status for
  request validation errors, 422; the \<^verbatim>\<open>try\<close> block of the function is not entered.
\<close>

definition post_analyze ::
  "runtime \<Rightarrow> settings \<Rightarrow> resume_analysis_request \<Rightarrow> http_response \<times> event list" where
  "post_analyze rt st request_body =
     (case validate_request request_body of
        Inl errors \<Rightarrow> (\<lparr>status_code = 422, body = RequestErrors errors\<rparr>, [])
      | Inr request \<Rightarrow> analyze_resume_endpoint rt st request)"

section \<open>Notions and sample inputs of the statements\<close>

text \<open>A runtime whose remote agent never answers in time, and one that answers \<open>reply\<close>.\<close>

definition timeout_runtime :: runtime where
  "timeout_runtime =
     \<lparr>get_agent_error = None, agent_initialized = True, agent_run = (\<lambda>prompt. TimedOut),
      lax_int = (\<lambda>v. None), lax_float = (\<lambda>v. None)\<rparr>"

definition reply_runtime :: "pystr \<Rightarrow> runtime" where
  "reply_runtime reply =
     \<lparr>get_agent_error = None, agent_initialized = True, agent_run = (\<lambda>prompt. Reply reply),
      lax_int = (\<lambda>v. None), lax_float = (\<lambda>v. None)\<rparr>"

definition sample_request :: resume_analysis_request where
  "sample_request = \<lparr>content = str ''Software engineer'', user_id = str ''u1''\<rparr>"

text \<open>
  A JSON object with a score of 150; a JSON object with a fence marker inside a string;
  and that object in a fenced block.
\<close>

definition scenario_json :: pystr where
  \<open>scenario_json = str ''{"score":150,"optimized_content":"X","suggestions":[]}''\<close>

definition nested_fence_json :: pystr where
  \<open>nested_fence_json = str ''{"score":50,"optimized_content":"```{}```","suggestions":[]}''\<close>

definition nested_fence_reply :: pystr where
  \<open>nested_fence_reply =
     str ''```json\<newline>{"score":50,"optimized_content":"```{}```","suggestions":[]}\<newline>```''\<close>

text \<open>A JSON object without the field \<^verbatim>\<open>score\<close>.\<close>

definition missing_score_json :: pystr where
  \<open>missing_score_json = str ''{"optimized_content":"X","suggestions":[]}''\<close>

text \<open>The test \<^verbatim>\<open>0 <= x <= 100\<close> on a number.\<close>

definition in_range :: "pyfloat \<Rightarrow> bool" where
  "in_range x \<longleftrightarrow> float_le (Finite 0) x \<and> float_le x (Finite 100)"

text \<open>The object the decoder gives for \<open>scenario_json\<close>, and the fallback's suggestion.\<close>

definition scenario_dict :: "(pystr \<times> pyobj) list" where
  "scenario_dict =
     [(str ''score'', PyInt 150), (str ''optimized_content'', PyStr (str ''X'')),
      (str ''suggestions'', PyList [])]"

definition fallback_suggestion :: suggestion where
  "fallback_suggestion =
     \<lparr>category = str ''System'',
      description = str ''Unable to parse AI response. Please try again.'',
      priority = 1\<rparr>"

text \<open>A fenced reply whose closing marker is missing.\<close>

definition unclosed_reply :: pystr where
  \<open>unclosed_reply = str ''```json\<newline>{"score":50,"optimized_content":"X","suggestions":[]}''\<close>

text \<open>
  Settings with a maximum of 5 characters; a request whose content is blank, and one
  whose content has 5 characters.
\<close>

definition short_settings :: settings where
  "short_settings =
     \<lparr>model_deployment_name = str ''gpt-4o-deployment'', max_analysis_length = 5,
      request_timeout = 30\<rparr>"

definition blank_request :: resume_analysis_request where
  "blank_request = \<lparr>content = str ''            '', user_id = str ''u1''\<rparr>"

definition short_request :: resume_analysis_request where
  "short_request = \<lparr>content = str ''Hello'', user_id = str ''u1''\<rparr>"

section \<open>Facts about searching and slicing\<close>

lemma find_at_hit: "prefix sub t \<Longrightarrow> find_at sub t i = int i"
  by (cases t) auto

lemma find_at_skip:
  assumes "\<And>u'. u' \<noteq> [] \<Longrightarrow> suffix u' u \<Longrightarrow> \<not> prefix sub (u' @ v)"
  shows "find_at sub (u @ v) i = find_at sub v (i + length u)"
  using assms
proof (induction u arbitrary: i)
  case Nil
  then show ?case by simp
next
  case (Cons c u)
  have "\<not> prefix sub ((c # u) @ v)"
    using Cons.prems [of "c # u"] by simp
  moreover have "find_at sub (u @ v) (Suc i) = find_at sub v (Suc i + length u)"
    using Cons.prems by (intro Cons.IH) (simp add: suffix_ConsI)
  ultimately show ?case by simp
qed

lemma find_at_nonneg_iff:
  "0 \<le> find_at sub t i \<longleftrightarrow> (\<exists>u'. suffix u' t \<and> prefix sub u')"
proof (induction t arbitrary: i)
  case Nil
  then show ?case by auto
next
  case (Cons c cs)
  show ?case
  proof (cases "prefix sub (c # cs)")
    case True
    then show ?thesis by (auto intro: exI [of _ "c # cs"])
  next
    case False
    then show ?thesis
      using Cons.IH [of "Suc i"] by (auto simp: suffix_Cons)
  qed
qed

lemma find_at_range: "find_at sub t i = - 1 \<or> int i \<le> find_at sub t i"
proof (induction t arbitrary: i)
  case Nil
  then show ?case by simp
next
  case (Cons c cs)
  then show ?case using Cons.IH [of "Suc i"] by auto
qed

lemma str_contains_iff:
  "str_contains sub s \<longleftrightarrow> (\<exists>u'. suffix u' s \<and> prefix sub u')"
  by (simp add: str_contains_def str_find_def slice_index_def find_at_nonneg_iff)

lemma str_find_from:
  "n \<le> length s \<Longrightarrow> str_find s sub (int n) = find_at sub (drop n s) n"
  by (simp add: str_find_def slice_index_def)

lemma slice_nat:
  "slice s (int a) (int b) = take (b - a) (drop a s)"
  by (cases "a \<le> length s"; cases "b \<le> length s") (auto simp: slice_def slice_index_def min_def)

lemma slice_index_minus_one: "slice_index (- 1) n = n - 1"
  by (cases n) (auto simp: slice_index_def)

lemma slice_to_minus_one:
  "slice s (int a) (- 1) = butlast (drop a s)"
proof (cases "a \<le> length s")
  case True
  then show ?thesis
    by (simp add: slice_def slice_index_minus_one butlast_conv_take) (simp add: slice_index_def)
next
  case False
  then show ?thesis
    by (simp add: slice_def slice_index_def)
qed

section \<open>Facts about fence markers\<close>

lemma length_str [simp]: "length (str s) = length s"
  by (simp add: str_def)

lemma fence_json_split: "str ''```json'' = str ''```'' @ str ''json''"
  by (simp add: str_def)

lemma fence_eq: "str ''```'' = [96, 96, 96]"
  by (simp add: str_def)

lemma fence_in_padding:
  assumes "u' \<noteq> []" and "prefix [a, a, a] (u' @ a # a # a # rest)"
  shows "last u' = a \<or> prefix [a, a, a] u'"
proof (cases u')
  case Nil
  with assms show ?thesis by simp
next
  case c1: (Cons x1 t1)
  show ?thesis
  proof (cases t1)
    case Nil
    with c1 assms show ?thesis by simp
  next
    case c2: (Cons x2 t2)
    show ?thesis
    proof (cases t2)
      case Nil
      with c1 c2 assms show ?thesis by auto
    next
      case (Cons x3 t3)
      with c1 c2 assms show ?thesis by auto
    qed
  qed
qed

lemma find_closing_fence:
  assumes nofence: "\<not> str_contains (str ''```'') inner"
    and noback: "inner = [] \<or> last inner \<noteq> 96"
  shows "find_at (str ''```'') (inner @ str ''```'' @ rest) i = int (i + length inner)"
proof -
  have "find_at (str ''```'') (inner @ (str ''```'' @ rest)) i
        = find_at (str ''```'') (str ''```'' @ rest) (i + length inner)"
  proof (rule find_at_skip)
    fix u'
    assume ne: "u' \<noteq> []" and suf: "suffix u' inner"
    show "\<not> prefix (str ''```'') (u' @ str ''```'' @ rest)"
    proof
      assume "prefix (str ''```'') (u' @ str ''```'' @ rest)"
      then have "last u' = 96 \<or> prefix [96, 96, 96] u'"
        using fence_in_padding [OF ne, of 96 rest] by (simp add: fence_eq)
      moreover from ne suf have "last u' = last inner" and "inner \<noteq> []"
        by (auto simp: suffix_def)
      moreover from suf nofence have "\<not> prefix [96, 96, 96] u'"
        by (auto simp: str_contains_iff fence_eq)
      ultimately show False using noback by simp
    qed
  qed
  then show ?thesis by (simp add: find_at_hit)
qed

lemma no_fence_no_fence_json:
  "\<not> str_contains (str ''```'') s \<Longrightarrow> \<not> str_contains (str ''```json'') s"
  by (auto simp: str_contains_iff fence_json_split dest: append_prefixD)

lemma extract_unfenced:
  "\<not> str_contains (str ''```'') s \<Longrightarrow> extract_json_text s = strip s"
  by (simp add: extract_json_text_def no_fence_no_fence_json)

lemma extract_fenced_json:
  assumes nofence: "\<not> str_contains (str ''```'') inner"
    and noback: "inner = [] \<or> last inner \<noteq> 96"
  shows "extract_json_text (str ''```json'' @ inner @ str ''```'' @ rest) = strip inner"
proof -
  let ?R = "str ''```json'' @ inner @ str ''```'' @ rest"
  have c: "str_contains (str ''```json'') ?R"
    unfolding str_contains_iff by (rule exI [of _ ?R]) simp
  have s: "str_find ?R (str ''```json'') 0 = 0"
    using str_find_from [of 0 ?R] by (simp add: find_at_hit)
  have "str_find ?R (str ''```'') (int 7) = find_at (str ''```'') (drop 7 ?R) 7"
    by (rule str_find_from) simp
  then have e: "str_find ?R (str ''```'') 7 = int (7 + length inner)"
    using find_closing_fence [OF nofence noback, of rest 7] by simp
  have "slice ?R (int 7) (int (7 + length inner)) = inner"
    by (simp only: slice_nat) simp
  with c s e show ?thesis
    by (simp add: extract_json_text_def)
qed

lemma backquote_not_space: "\<not> isspace 96"
  by (simp add: isspace_def)

lemma no_fence_padded:
  assumes w1: "\<forall>c\<in>set w1. isspace c" and w2: "\<forall>c\<in>set w2. isspace c"
    and nofence: "\<not> str_contains (str ''```'') J"
  shows "\<not> str_contains (str ''```'') (w1 @ J @ w2)"
proof
  assume "str_contains (str ''```'') (w1 @ J @ w2)"
  then obtain u' where suf: "suffix u' (w1 @ J @ w2)" and pre: "prefix [96, 96, 96] u'"
    by (auto simp: str_contains_iff fence_eq)
  from pre obtain t where u': "u' = 96 # t"
    by (cases u') auto
  from suf w1 have "suffix u' (J @ w2)"
  proof (induction w1)
    case Nil
    then show ?case by simp
  next
    case (Cons c w1)
    from Cons.prems(1) have "u' = c # w1 @ J @ w2 \<or> suffix u' (w1 @ J @ w2)"
      by (simp add: suffix_Cons)
    moreover from Cons.prems(2) u' have "u' \<noteq> c # w1 @ J @ w2"
      using backquote_not_space by auto
    ultimately show ?case using Cons by simp
  qed
  then consider "suffix u' w2" | xs where "u' = xs @ w2" "suffix xs J"
    by (auto simp: suffix_append)
  then show False
  proof cases
    case 1
    then have "96 \<in> set w2" using u' by (auto simp: suffix_def)
    with w2 show False using backquote_not_space by blast
  next
    case 2
    from pre 2(1) consider "prefix [96, 96, 96] xs"
      | us where "[96, 96, 96] = xs @ us" "prefix us w2" "us \<noteq> []"
      by (auto simp: prefix_append) (metis append_Nil2 prefix_order.refl)
    then show False
    proof cases
      case 1
      with 2(2) nofence show False by (auto simp: str_contains_iff fence_eq)
    next
      case 2
      then obtain x us' where us: "us = x # us'" by (cases us) auto
      with 2 have "x \<in> set w2" by (auto simp: prefix_def)
      moreover from 2(1) us have "x \<in> set [96, 96, 96::nat]"
        by (metis in_set_conv_decomp)
      ultimately show False using w2 backquote_not_space by auto
    qed
  qed
qed

lemma no_backquote_end_padded:
  assumes w1: "\<forall>c\<in>set w1. isspace c" and w2: "\<forall>c\<in>set w2. isspace c"
    and J: "J = [] \<or> last J \<noteq> 96"
  shows "w1 @ J @ w2 = [] \<or> last (w1 @ J @ w2) \<noteq> 96"
proof (cases "w2 = []")
  case False
  then have "last (w1 @ J @ w2) \<in> set w2" by simp
  with w2 show ?thesis using backquote_not_space by metis
next
  case w2e: True
  show ?thesis
  proof (cases "J = []")
    case False
    with w2e J show ?thesis by simp
  next
    case True
    show ?thesis
    proof (cases "w1 = []")
      case True
      with \<open>J = []\<close> w2e show ?thesis by simp
    next
      case False
      then have "last w1 \<in> set w1" by simp
      with w1 \<open>J = []\<close> w2e show ?thesis using backquote_not_space by (metis append_Nil2)
    qed
  qed
qed

lemma dropWhile_all: "\<forall>c\<in>set w. P c \<Longrightarrow> dropWhile P (w @ xs) = dropWhile P xs"
  by (induction w) auto

lemma strip_padded:
  assumes w1: "\<forall>c\<in>set w1. isspace c" and w2: "\<forall>c\<in>set w2. isspace c"
  shows "strip (w1 @ J @ w2) = strip J"
proof -
  have a: "dropWhile isspace (w1 @ J @ w2) = dropWhile isspace (J @ w2)"
    using w1 by (rule dropWhile_all)
  show ?thesis
  proof (cases "\<forall>c\<in>set J. isspace c")
    case True
    then have b: "dropWhile isspace (J @ w2) = []" and c: "dropWhile isspace J = []"
      using w2 by auto
    show ?thesis unfolding strip_def a b c by simp
  next
    case False
    then have "dropWhile isspace (J @ w2) = dropWhile isspace J @ w2"
      by (auto simp: dropWhile_append1)
    moreover have "dropWhile isspace (rev w2 @ rev (dropWhile isspace J))
        = dropWhile isspace (rev (dropWhile isspace J))"
      using w2 by (intro dropWhile_all) simp
    ultimately show ?thesis unfolding strip_def a by simp
  qed
qed

section \<open>The timeout of the remote call\<close>

text \<open>
  Claim C6. When the remote call times out, \<^verbatim>\<open>analyze_resume\<close> fails with a
  \<^verbatim>\<open>ValueError\<close> whose message is "Analysis request timed out. Please try again."
  (the timeout exception itself does not leave the function), and \<^verbatim>\<open>POST /analyze\<close>
  answers the request with status 400 and that message as its detail.
\<close>

theorem timeout_is_user_facing_400:
  assumes "validate_request request_body = Inr request"
    and "get_agent_error rt = None"
    and "agent_initialized rt"
    and "agent_run rt (build_prompt (truncate_content st (content request))) = TimedOut"
  shows "fst (analyze_resume rt st (content request) (user_id request)) =
           Inl (ValueError (str ''Analysis request timed out. Please try again.''))
         \<and> fst (post_analyze rt st request_body) =
           \<lparr>status_code = 400,
            body = ErrorDetail (Message (str ''Analysis request timed out. Please try again.''))\<rparr>"
  using assms
  by (simp add: post_analyze_def analyze_resume_def analyze_resume_endpoint_def
      error_response_def Let_def)

lemma sample_request_valid: "validate_request sample_request = Inr sample_request"
  by (simp add: validate_request_def sample_request_def content_field_def user_id_field_def
      check_length_def validate_content_def strip_def isspace_def str_def)

theorem timeout_is_user_facing_400_witness:
  "validate_request sample_request = Inr sample_request
   \<and> get_agent_error timeout_runtime = None
   \<and> agent_initialized timeout_runtime
   \<and> agent_run timeout_runtime
        (build_prompt (truncate_content default_settings (content sample_request))) = TimedOut
   \<and> fst (analyze_resume timeout_runtime default_settings
             (content sample_request) (user_id sample_request)) =
        Inl (ValueError (str ''Analysis request timed out. Please try again.''))
   \<and> fst (post_analyze timeout_runtime default_settings sample_request) =
        \<lparr>status_code = 400,
         body = ErrorDetail (Message (str ''Analysis request timed out. Please try again.''))\<rparr>"
  using timeout_is_user_facing_400 [of sample_request sample_request timeout_runtime default_settings]
    sample_request_valid
  by (simp add: timeout_runtime_def)

section \<open>Fenced replies\<close>

text \<open>
  Claim C2, as amended. A reply that wraps a text \<open>J\<close> in a fenced block with the language
  tag, with whitespace around \<open>J\<close> inside the block and anything after the closing
  marker, is normalized to exactly what \<open>J\<close> alone is normalized to, provided \<open>J\<close>
  contains no fence marker and does not end in a backquote (the text of a JSON object
  ends in a closing brace).
\<close>

theorem fenced_json_same_as_unwrapped:
  assumes "\<not> str_contains (str ''```'') J"
    and "J = [] \<or> last J \<noteq> cp CHR 0x60"
    and "\<forall>c\<in>set w1. isspace c"
    and "\<forall>c\<in>set w2. isspace c"
  shows "parse_agent_response (str ''```json'' @ w1 @ J @ w2 @ str ''```'' @ rest)
           = parse_agent_response J"
proof -
  have "extract_json_text (str ''```json'' @ (w1 @ J @ w2) @ str ''```'' @ rest) = strip (w1 @ J @ w2)"
    using assms by (intro extract_fenced_json no_fence_padded no_backquote_end_padded) simp_all
  moreover have "extract_json_text J = strip J"
    using assms(1) by (rule extract_unfenced)
  ultimately show ?thesis
    using assms(3,4) by (simp add: parse_agent_response_def strip_padded)
qed

subsection \<open>Evaluation of the samples\<close>

lemmas json_eval = scan_members.simps scan_elements.simps json_loads_def skip_ws_def json_ws_def scan_number_def scan_exponent_def
  is_digit_def digits_value_def scan_escape_def escape_char_def hex4_def hex_digit_def
  low_surrogate_def str_def

lemmas find_eval = str_contains_def str_find_def slice_index_def str_def

lemmas normalize_eval = required_fields_def score_in_range_def clamp_score_def py_le_def
  py_lt_def py_min_def py_max_def str_def

lemma scenario_json_loads:
  "json_loads scenario_json =
     Some (PyDict [(str ''score'', PyInt 150), (str ''optimized_content'', PyStr (str ''X'')),
                   (str ''suggestions'', PyList [])])"
  by (simp add: scenario_json_def json_eval)

lemma scenario_json_no_fence: "\<not> str_contains (str ''```'') scenario_json"
  by (simp add: scenario_json_def find_eval)

lemma scenario_json_strip: "strip scenario_json = scenario_json"
  by (simp add: scenario_json_def strip_def isspace_def str_def)

lemma scenario_json_last: "last scenario_json \<noteq> cp CHR 0x60"
  by (simp add: scenario_json_def str_def)

lemma normalize_scenario:
  "parse_agent_response scenario_json =
     Inr (PyDict [(str ''score'', PyInt 100), (str ''optimized_content'', PyStr (str ''X'')),
                  (str ''suggestions'', PyList [])])"
  by (simp add: parse_agent_response_def extract_unfenced scenario_json_no_fence
      scenario_json_strip scenario_json_loads)
    (simp add: validate_analysis_def normalize_eval)

lemma nested_loads:
  "json_loads nested_fence_json =
     Some (PyDict [(str ''score'', PyInt 50),
                   (str ''optimized_content'', PyStr (str ''```{}```'')),
                   (str ''suggestions'', PyList [])])"
  by (simp add: nested_fence_json_def json_eval)

lemma nested_has_fence: "str_contains (str ''```'') nested_fence_json"
  by (simp add: nested_fence_json_def find_eval)
lemma nested_no_fence_json: "\<not> str_contains (str ''```json'') nested_fence_json"
  by (simp add: nested_fence_json_def find_eval)
lemma nested_find1: "str_find nested_fence_json (str ''```'') 0 = 33"
  by (simp add: nested_fence_json_def find_eval)
lemma nested_find2: "str_find nested_fence_json (str ''```'') 36 = 38"
  by (simp add: nested_fence_json_def find_eval)
lemma nested_slice: "slice nested_fence_json 36 38 = str ''{}''"
  by (simp add: nested_fence_json_def slice_def slice_index_def str_def)
lemma nested_extract: "extract_json_text nested_fence_json = str ''{}''"
  by (simp add: extract_json_text_def nested_has_fence nested_no_fence_json nested_find1
      nested_find2 nested_slice) (simp add: strip_def isspace_def str_def)
lemma empty_loads: "json_loads (str ''{}'') = Some (PyDict [])"
  by (simp add: json_eval)
lemma nested_unwrapped:
  "parse_agent_response nested_fence_json = Inl (ValueError (str ''Missing required field: score''))"
  by (simp add: parse_agent_response_def validate_analysis_def nested_extract empty_loads required_fields_def)
    (simp add: str_def)

lemma nested_reply_wraps:
  "nested_fence_reply = str ''```json'' @ [10] @ nested_fence_json @ [10] @ str ''```''"
  by (simp add: nested_fence_reply_def nested_fence_json_def str_def)

lemma nested_reply_has_tag: "str_contains (str ''```json'') nested_fence_reply"
  by (simp add: nested_fence_reply_def find_eval)
lemma nested_reply_find1: "str_find nested_fence_reply (str ''```json'') 0 = 0"
  by (simp add: nested_fence_reply_def find_eval)
lemma nested_reply_find2: "str_find nested_fence_reply (str ''```'') 7 = 41"
  by (simp add: nested_fence_reply_def find_eval)
lemma nested_reply_slice:
  \<open>slice nested_fence_reply 7 41 = str ''\<newline>{"score":50,"optimized_content":"''\<close>
  by (simp add: nested_fence_reply_def slice_def slice_index_def str_def)
lemma nested_reply_strip:
  \<open>strip (str ''\<newline>{"score":50,"optimized_content":"'') = str ''{"score":50,"optimized_content":"''\<close>
  by (simp add: strip_def isspace_def str_def)
lemma nested_reply_extract:
  \<open>extract_json_text nested_fence_reply = str ''{"score":50,"optimized_content":"''\<close>
  by (simp add: extract_json_text_def nested_reply_has_tag nested_reply_find1 nested_reply_find2
      nested_reply_slice nested_reply_strip)
lemma nested_reply_loads:
  \<open>json_loads (str ''{"score":50,"optimized_content":"'') = None\<close>
  by (simp add: json_eval)

lemma nested_reply_fallback: "parse_agent_response nested_fence_reply = Inr fallback_analysis"
  by (simp add: parse_agent_response_def nested_reply_extract nested_reply_loads)

text \<open>The theorem at a fenced reply with a score of 150, whose result has the score 100.\<close>

theorem fenced_json_same_as_unwrapped_witness:
  "\<not> str_contains (str ''```'') scenario_json
   \<and> (scenario_json = [] \<or> last scenario_json \<noteq> cp CHR 0x60)
   \<and> isspace 10
   \<and> parse_agent_response (str ''```json'' @ [10] @ scenario_json @ [10] @ str ''```'' @ [])
       = parse_agent_response scenario_json
   \<and> parse_agent_response scenario_json =
       Inr (PyDict [(str ''score'', PyInt 100), (str ''optimized_content'', PyStr (str ''X'')),
                    (str ''suggestions'', PyList [])])"
proof -
  have sp: "isspace 10" by (simp add: isspace_def)
  have "parse_agent_response (str ''```json'' @ [10] @ scenario_json @ [10] @ str ''```'' @ [])
          = parse_agent_response scenario_json"
    using scenario_json_no_fence scenario_json_last sp
    by (intro fenced_json_same_as_unwrapped) simp_all
  with scenario_json_no_fence scenario_json_last sp normalize_scenario show ?thesis
    by simp
qed

text \<open>
  Claim C2 as stated fails for a JSON object with a fence marker inside a string: the
  fenced reply is cut at that marker and falls back, while the object alone is cut
  between its two markers and raises.
\<close>

theorem fenced_json_differs_counterexample:
  "json_loads nested_fence_json =
     Some (PyDict [(str ''score'', PyInt 50),
                   (str ''optimized_content'', PyStr (str ''```{}```'')),
                   (str ''suggestions'', PyList [])])
   \<and> nested_fence_reply = str ''```json'' @ [10] @ nested_fence_json @ [10] @ str ''```''
   \<and> parse_agent_response nested_fence_reply = Inr fallback_analysis
   \<and> parse_agent_response nested_fence_json =
       Inl (ValueError (str ''Missing required field: score''))"
  by (intro conjI nested_loads nested_reply_wraps nested_reply_fallback nested_unwrapped)

section \<open>Replies with a missing field\<close>

lemma check_required_dict:
  "check_required fs (PyDict kvs) =
     (case filter (\<lambda>f. map_of kvs f = None) fs of
        [] \<Rightarrow> Inr ()
      | f # rest \<Rightarrow> Inl (ValueError (str ''Missing required field: '' @ f)))"
  by (induction fs) auto

lemma parse_missing_field:
  assumes "json_loads (extract_json_text response_text) = Some (PyDict kvs)"
    and "filter (\<lambda>f. map_of kvs f = None) required_fields = f # rest"
  shows "parse_agent_response response_text =
           Inl (ValueError (str ''Missing required field: '' @ f))"
  using assms by (simp add: parse_agent_response_def validate_analysis_def check_required_dict)

text \<open>
  Claim C1, as amended. When the extracted text parses as a JSON object that lacks one
  of the required fields \<^verbatim>\<open>score\<close>, \<^verbatim>\<open>optimized_content\<close>, \<^verbatim>\<open>suggestions\<close>, the
  normalizer raises \<^verbatim>\<open>ValueError\<close> with the message "Missing required field: " and the
  name of the first missing field, in that order. The error leaves the function: its
  handler catches \<^verbatim>\<open>JSONDecodeError\<close> only, and no fallback is returned.
\<close>

theorem missing_field_raises:
  assumes "json_loads (extract_json_text response_text) = Some (PyDict kvs)"
    and "\<exists>f\<in>set required_fields. map_of kvs f = None"
  shows "parse_agent_response response_text =
           Inl (ValueError (str ''Missing required field: ''
                  @ hd (filter (\<lambda>f. map_of kvs f = None) required_fields)))"
proof -
  from assms(2) have "filter (\<lambda>f. map_of kvs f = None) required_fields \<noteq> []"
    by (simp add: filter_empty_conv)
  then obtain f rest where "filter (\<lambda>f. map_of kvs f = None) required_fields = f # rest"
    by (cases "filter (\<lambda>f. map_of kvs f = None) required_fields") auto
  with assms(1) show ?thesis
    by (simp add: parse_missing_field)
qed

lemma missing_score_loads:
  "json_loads missing_score_json =
     Some (PyDict [(str ''optimized_content'', PyStr (str ''X'')), (str ''suggestions'', PyList [])])"
  by (simp add: missing_score_json_def json_eval)

lemma missing_score_no_fence: "\<not> str_contains (str ''```'') missing_score_json"
  by (simp add: missing_score_json_def find_eval)

lemma missing_score_strip: "strip missing_score_json = missing_score_json"
  by (simp add: missing_score_json_def strip_def isspace_def str_def)

lemma missing_score_extract: "extract_json_text missing_score_json = missing_score_json"
  by (simp add: extract_unfenced missing_score_no_fence missing_score_strip)

lemma missing_score_filter:
  "filter (\<lambda>f. map_of [(str ''optimized_content'', PyStr (str ''X'')), (str ''suggestions'', PyList [])] f = None)
     required_fields = [str ''score'']"
  by (simp add: required_fields_def str_def)

lemma missing_score_extract_loads:
  "json_loads (extract_json_text missing_score_json) =
     Some (PyDict [(str ''optimized_content'', PyStr (str ''X'')), (str ''suggestions'', PyList [])])"
  by (simp add: missing_score_extract missing_score_loads)

lemma missing_score_lookup:
  "map_of [(str ''optimized_content'', PyStr (str ''X'')), (str ''suggestions'', PyList [])]
     (str ''score'') = None"
  by (simp add: str_def)

lemma missing_score_message:
  "str ''Missing required field: '' @ str ''score'' = str ''Missing required field: score''"
  by (simp add: str_def)

theorem missing_field_raises_witness:
  "json_loads (extract_json_text missing_score_json) =
     Some (PyDict [(str ''optimized_content'', PyStr (str ''X'')), (str ''suggestions'', PyList [])])
   \<and> map_of [(str ''optimized_content'', PyStr (str ''X'')), (str ''suggestions'', PyList [])]
        (str ''score'') = None
   \<and> parse_agent_response missing_score_json =
       Inl (ValueError (str ''Missing required field: '' @ str ''score''))"
proof -
  let ?kvs = "[(str ''optimized_content'', PyStr (str ''X'')), (str ''suggestions'', PyList [])]"
  have "str ''score'' \<in> set required_fields"
    by (simp add: required_fields_def)
  with missing_score_lookup have "\<exists>f\<in>set required_fields. map_of ?kvs f = None"
    by blast
  from missing_field_raises [OF missing_score_extract_loads this]
  have "parse_agent_response missing_score_json =
       Inl (ValueError (str ''Missing required field: '' @ str ''score''))"
    by (simp only: missing_score_filter list.sel)
  then show ?thesis
    by (intro conjI missing_score_extract_loads missing_score_lookup)
qed

text \<open>
  Claim C1 as stated fails: for a JSON object without \<^verbatim>\<open>score\<close> the normalizer raises
  and does not return the fallback.
\<close>

theorem missing_field_no_fallback_counterexample:
  "json_loads (extract_json_text missing_score_json) =
     Some (PyDict [(str ''optimized_content'', PyStr (str ''X'')), (str ''suggestions'', PyList [])])
   \<and> parse_agent_response missing_score_json =
       Inl (ValueError (str ''Missing required field: score''))
   \<and> parse_agent_response missing_score_json \<noteq> Inr fallback_analysis"
proof -
  have p: "parse_agent_response missing_score_json =
       Inl (ValueError (str ''Missing required field: score''))"
    using parse_missing_field [OF missing_score_extract_loads missing_score_filter]
    by (simp only: missing_score_message)
  then have "parse_agent_response missing_score_json \<noteq> Inr fallback_analysis"
    by simp
  with p show ?thesis
    by (intro conjI missing_score_extract_loads)
qed

section \<open>The score\<close>

lemma score_in_range_number:
  "as_number sc = Some x \<Longrightarrow> score_in_range sc = Inr (in_range x)"
  by (auto simp: score_in_range_def py_le_def in_range_def)

lemma clamp_score_number:
  assumes "as_number sc = Some x"
  shows "clamp_score sc =
           Inr (if float_lt x (Finite 100) then (if float_lt (Finite 0) x then sc else PyInt 0)
                else PyInt 100)"
  using assms by (simp add: clamp_score_def py_min_def py_max_def py_lt_def)

lemma clamp_score_out_of_range:
  assumes "as_number sc = Some x" and "\<not> in_range x"
  shows "clamp_score sc = Inr (PyInt (if float_lt x (Finite 0) then 0 else 100))"
  using assms
  by (cases x) (auto simp: clamp_score_number in_range_def)

lemma check_required_present:
  assumes "\<forall>f\<in>set fs. map_of kvs f \<noteq> None"
  shows "check_required fs (PyDict kvs) = Inr ()"
  using assms by (induction fs) auto

text \<open>
  Claim C3. When the extracted text parses as a JSON object with the required fields
  and a numeric score, the normalizer returns without failure: the object unchanged when
  \<^verbatim>\<open>0 <= score <= 100\<close> holds, and otherwise the object with the score replaced by
  \<^verbatim>\<open>max(0, min(100, score))\<close>, which is 0 for a score below 0 and 100 for any other
  score out of range. In both cases the score returned lies in the range.
\<close>

theorem score_clamped_into_range:
  assumes "json_loads (extract_json_text response_text) = Some (PyDict kvs)"
    and "\<forall>f\<in>set required_fields. map_of kvs f \<noteq> None"
    and "map_of kvs (str ''score'') = Some sc"
    and "as_number sc = Some x"
  shows "parse_agent_response response_text =
           Inr (PyDict (if in_range x then kvs
                        else AList.update (str ''score'')
                               (PyInt (if float_lt x (Finite 0) then 0 else 100)) kvs))
         \<and> (in_range x
              \<or> clamp_score sc = Inr (PyInt (if float_lt x (Finite 0) then 0 else 100)))
         \<and> (\<exists>kvs' sc' y. parse_agent_response response_text = Inr (PyDict kvs')
               \<and> map_of kvs' (str ''score'') = Some sc' \<and> as_number sc' = Some y \<and> in_range y)"
proof -
  have p: "parse_agent_response response_text =
           Inr (PyDict (if in_range x then kvs
                        else AList.update (str ''score'')
                               (PyInt (if float_lt x (Finite 0) then 0 else 100)) kvs))"
    using assms
    by (simp add: parse_agent_response_def validate_analysis_def check_required_present score_in_range_number
        clamp_score_out_of_range)
  have c: "in_range x
              \<or> clamp_score sc = Inr (PyInt (if float_lt x (Finite 0) then 0 else 100))"
    using clamp_score_out_of_range [OF assms(4)] by blast
  have "\<exists>sc' y. map_of (if in_range x then kvs
                        else AList.update (str ''score'')
                               (PyInt (if float_lt x (Finite 0) then 0 else 100)) kvs)
                   (str ''score'') = Some sc' \<and> as_number sc' = Some y \<and> in_range y"
    using assms(3,4) by (auto simp: update_conv' in_range_def)
  with p c show ?thesis by auto
qed

text \<open>The theorem at the object with a score of 150, which becomes 100.\<close>

lemma scenario_extract_loads:
  "json_loads (extract_json_text scenario_json) = Some (PyDict scenario_dict)"
  by (simp add: extract_unfenced scenario_json_no_fence scenario_json_strip scenario_json_loads
      scenario_dict_def)

lemma scenario_dict_fields:
  "map_of scenario_dict (str ''score'') = Some (PyInt 150)"
  "map_of scenario_dict (str ''optimized_content'') = Some (PyStr (str ''X''))"
  "map_of scenario_dict (str ''suggestions'') = Some (PyList [])"
  by (simp_all add: scenario_dict_def str_def)

lemma scenario_dict_update:
  "AList.update (str ''score'') (PyInt 100) scenario_dict =
     [(str ''score'', PyInt 100), (str ''optimized_content'', PyStr (str ''X'')),
      (str ''suggestions'', PyList [])]"
  by (simp add: scenario_dict_def)

theorem score_clamped_into_range_witness:
  "json_loads (extract_json_text scenario_json) = Some (PyDict scenario_dict)
   \<and> map_of scenario_dict (str ''score'') = Some (PyInt 150)
   \<and> map_of scenario_dict (str ''optimized_content'') = Some (PyStr (str ''X''))
   \<and> map_of scenario_dict (str ''suggestions'') = Some (PyList [])
   \<and> as_number (PyInt 150) = Some (Finite 150)
   \<and> \<not> in_range (Finite 150)
   \<and> parse_agent_response scenario_json =
       Inr (PyDict [(str ''score'', PyInt 100), (str ''optimized_content'', PyStr (str ''X'')),
                    (str ''suggestions'', PyList [])])"
proof -
  have f: "\<forall>f\<in>set required_fields. map_of scenario_dict f \<noteq> None"
    by (simp add: required_fields_def scenario_dict_fields)
  have n: "as_number (PyInt 150) = Some (Finite 150)" by simp
  have r: "\<not> in_range (Finite 150)" by (simp add: in_range_def)
  from score_clamped_into_range [OF scenario_extract_loads f scenario_dict_fields(1) n]
  have "parse_agent_response scenario_json =
          Inr (PyDict (AList.update (str ''score'') (PyInt 100) scenario_dict))"
    using r by simp
  then have "parse_agent_response scenario_json =
       Inr (PyDict [(str ''score'', PyInt 100), (str ''optimized_content'', PyStr (str ''X'')),
                    (str ''suggestions'', PyList [])])"
    by (simp only: scenario_dict_update)
  with n r show ?thesis
    by (intro conjI scenario_extract_loads scenario_dict_fields)
qed

section \<open>The fallback\<close>

lemma fallback_fields:
  "py_getitem fallback_analysis (str ''score'') = Inr (PyFloat (Finite 70))"
  "py_getitem fallback_analysis (str ''optimized_content'') =
     Inr (PyStr (str ''Analysis parsing failed. Original content returned.''))"
  "py_getitem fallback_analysis (str ''suggestions'') =
     Inr (PyList
            [PyDict
               [(str ''category'', PyStr (str ''System'')),
                (str ''description'', PyStr (str ''Unable to parse AI response. Please try again.'')),
                (str ''priority'', PyInt 1)]])"
  "py_getitem fallback_analysis (str ''reasoning'') = Inr (PyStr (str ''Response parsing error''))"
  by (simp_all add: fallback_analysis_def str_def)

lemma fallback_make_suggestion:
  "make_suggestion rt
     (PyDict
        [(str ''category'', PyStr (str ''System'')),
         (str ''description'', PyStr (str ''Unable to parse AI response. Please try again.'')),
         (str ''priority'', PyInt 1)]) = Inr fallback_suggestion"
  by (simp add: make_suggestion_def int_field_def fallback_suggestion_def str_def)

lemma fallback_build_result:
  "build_result rt st resume uid fallback_analysis =
     Inr (PyFloat (Finite 70),
          PyStr (str ''Analysis parsing failed. Original content returned.''),
          [fallback_suggestion],
          \<lparr>model_used = model_deployment_name st, content_length = length resume,
           metadata_user_id = uid\<rparr>)"
  by (simp add: build_result_def fallback_fields fallback_make_suggestion)

lemma fallback_make_response:
  "make_response rt (PyFloat (Finite 70))
     (PyStr (str ''Analysis parsing failed. Original content returned.''))
     [fallback_suggestion] md =
   Inr \<lparr>score = Finite 70,
        optimized_content = str ''Analysis parsing failed. Original content returned.'',
        suggestions = [fallback_suggestion], response_metadata = md\<rparr>"
  by (simp add: make_response_def float_field_def)


lemma not_json_extract: "extract_json_text (str ''not json at all'') = str ''not json at all''"
proof -
  have "\<not> str_contains (str ''```'') (str ''not json at all'')"
    by (simp add: find_eval)
  moreover have "strip (str ''not json at all'') = str ''not json at all''"
    by (simp add: strip_def isspace_def str_def)
  ultimately show ?thesis by (simp add: extract_unfenced)
qed

lemma not_json_loads: "json_loads (str ''not json at all'') = None"
  by (simp add: json_eval)


section \<open>A fence that is not closed\<close>

text \<open>
  Claim C10. When the reply has an opening marker and no \<^verbatim>\<open>```\<close> after it, the search
  for the closing marker gives -1, which the slice reads as "up to the last character":
  the text handed to the decoder is the reply from after the opening marker without its
  final character, stripped. Decoding goes on with that text, and falls back when it is
  not valid JSON.
\<close>

theorem unclosed_fence_drops_last_character:
  assumes "str_contains (str ''```'') response_text"
    and "str_find response_text (str ''```'') (json_start response_text) = - 1"
  shows "extract_json_text response_text =
           strip (butlast (drop (nat (json_start response_text)) response_text))
         \<and> parse_agent_response response_text =
           (case json_loads (strip (butlast (drop (nat (json_start response_text)) response_text))) of
              None \<Rightarrow> Inr fallback_analysis
            | Some analysis \<Rightarrow> validate_analysis analysis)"
proof -
  have nonneg: "0 \<le> json_start response_text"
    using assms(1) by (auto simp: json_start_def str_contains_def)
  then have "slice response_text (json_start response_text) (- 1) =
      butlast (drop (nat (json_start response_text)) response_text)"
    using slice_to_minus_one [of response_text "nat (json_start response_text)"] by simp
  moreover have "extract_json_text response_text =
      strip (slice response_text (json_start response_text)
               (str_find response_text (str ''```'') (json_start response_text)))"
  proof (cases "str_contains (str ''```json'') response_text")
    case True
    then show ?thesis by (simp add: extract_json_text_def json_start_def Let_def)
  next
    case False
    with assms(1) show ?thesis by (simp add: extract_json_text_def json_start_def Let_def)
  qed
  ultimately have "extract_json_text response_text =
           strip (butlast (drop (nat (json_start response_text)) response_text))"
    using assms(2) by simp
  then show ?thesis
    by (simp add: parse_agent_response_def)
qed

text \<open>
  The theorem at a reply whose JSON object is complete: the closing brace is dropped, the
  rest is not valid JSON and the result is the fallback, although the whole remainder
  after the marker is a valid object.
\<close>

lemma unclosed_has_tag: "str_contains (str ''```json'') unclosed_reply"
  by (simp add: unclosed_reply_def find_eval)
lemma unclosed_has_fence: "str_contains (str ''```'') unclosed_reply"
  by (simp add: unclosed_reply_def find_eval)
lemma unclosed_find1: "str_find unclosed_reply (str ''```json'') 0 = 0"
  by (simp add: unclosed_reply_def find_eval)
lemma unclosed_json_start: "json_start unclosed_reply = 7"
  by (simp add: json_start_def unclosed_has_tag unclosed_find1)
lemma unclosed_find2: "str_find unclosed_reply (str ''```'') 7 = - 1"
  by (simp add: unclosed_reply_def find_eval)
lemma unclosed_cut:
  \<open>strip (butlast (drop 7 unclosed_reply)) = str ''{"score":50,"optimized_content":"X","suggestions":[]''\<close>
  by (simp add: unclosed_reply_def strip_def isspace_def str_def)
lemma unclosed_remainder:
  \<open>strip (drop 7 unclosed_reply) = str ''{"score":50,"optimized_content":"X","suggestions":[]}''\<close>
  by (simp add: unclosed_reply_def strip_def isspace_def str_def)
lemma unclosed_cut_loads:
  \<open>json_loads (str ''{"score":50,"optimized_content":"X","suggestions":[]'') = None\<close>
  by (simp add: json_eval)
lemma unclosed_remainder_loads:
  \<open>json_loads (str ''{"score":50,"optimized_content":"X","suggestions":[]}'') =
     Some (PyDict [(str ''score'', PyInt 50), (str ''optimized_content'', PyStr (str ''X'')),
                   (str ''suggestions'', PyList [])])\<close>
  by (simp add: json_eval)

theorem unclosed_fence_drops_last_character_witness:
  \<open>str_contains (str ''```'') unclosed_reply
   \<and> str_find unclosed_reply (str ''```'') (json_start unclosed_reply) = - 1
   \<and> extract_json_text unclosed_reply =
       str ''{"score":50,"optimized_content":"X","suggestions":[]''
   \<and> parse_agent_response unclosed_reply = Inr fallback_analysis
   \<and> json_loads (strip (drop (nat (json_start unclosed_reply)) unclosed_reply)) =
       Some (PyDict [(str ''score'', PyInt 50), (str ''optimized_content'', PyStr (str ''X'')),
                     (str ''suggestions'', PyList [])])\<close>
proof -
  have f: "str_find unclosed_reply (str ''```'') (json_start unclosed_reply) = - 1"
    by (simp add: unclosed_json_start unclosed_find2)
  from unclosed_fence_drops_last_character [OF unclosed_has_fence f]
  have "extract_json_text unclosed_reply = strip (butlast (drop 7 unclosed_reply))"
    and "parse_agent_response unclosed_reply =
           (case json_loads (strip (butlast (drop 7 unclosed_reply))) of
              None \<Rightarrow> Inr fallback_analysis
            | Some analysis \<Rightarrow> validate_analysis analysis)"
    by (simp_all add: unclosed_json_start)
  then have \<open>extract_json_text unclosed_reply =
       str ''{"score":50,"optimized_content":"X","suggestions":[]''\<close>
    and "parse_agent_response unclosed_reply = Inr fallback_analysis"
    by (simp_all add: unclosed_cut unclosed_cut_loads)
  moreover have \<open>json_loads (strip (drop (nat (json_start unclosed_reply)) unclosed_reply)) =
       Some (PyDict [(str ''score'', PyInt 50), (str ''optimized_content'', PyStr (str ''X'')),
                     (str ''suggestions'', PyList [])])\<close>
    by (simp add: unclosed_json_start unclosed_remainder unclosed_remainder_loads)
  ultimately show ?thesis
    by (intro conjI unclosed_has_fence f)
qed

section \<open>Truncation of the content\<close>

lemma slice_from_start: "0 \<le> n \<Longrightarrow> slice s 0 n = take (nat n) s"
  using slice_nat [of s 0 "nat n"] by simp

text \<open>
  Claim C4. With an initialized agent and a maximum \<open>N\<close> that is not negative, the one
  prompt \<^verbatim>\<open>analyze_resume\<close> submits holds, between its two delimiter lines, exactly the
  first \<open>N\<close> characters of a content longer than \<open>N\<close>, with nothing appended to them,
  and a content of at most \<open>N\<close> characters as it is.
\<close>

theorem long_content_cut_to_maximum:
  assumes "agent_initialized rt" and "0 \<le> max_analysis_length st"
  shows "snd (analyze_resume rt st resume uid) =
           [str ''Analyze this resume and provide a comprehensive evaluation:\<newline>\<newline>RESUME CONTENT:\<newline>---\<newline>''
            @ (if max_analysis_length st < int (length resume)
               then take (nat (max_analysis_length st)) resume else resume)
            @ str ''\<newline>---\<newline>\<newline>Provide your analysis in the specified JSON format.'']"
  using assms
  by (simp add: analyze_resume_def Let_def truncate_content_def build_prompt_def slice_from_start)

theorem long_content_cut_to_maximum_witness:
  "agent_initialized timeout_runtime
   \<and> 0 \<le> max_analysis_length short_settings
   \<and> max_analysis_length short_settings < int (length (str ''Software engineer''))
   \<and> snd (analyze_resume timeout_runtime short_settings (str ''Software engineer'') (str ''u1'')) =
           [str ''Analyze this resume and provide a comprehensive evaluation:\<newline>\<newline>RESUME CONTENT:\<newline>---\<newline>''
            @ str ''Softw''
            @ str ''\<newline>---\<newline>\<newline>Provide your analysis in the specified JSON format.'']"
proof -
  have a: "agent_initialized timeout_runtime" by (simp add: timeout_runtime_def)
  have b: "0 \<le> max_analysis_length short_settings" by (simp add: short_settings_def)
  have c: "max_analysis_length short_settings < int (length (str ''Software engineer''))"
    by (simp add: short_settings_def)
  have d: "take (nat (max_analysis_length short_settings)) (str ''Software engineer'') = str ''Softw''"
    by (simp add: short_settings_def str_def)
  from long_content_cut_to_maximum [OF a b, of "str ''Software engineer''" "str ''u1''"] c d
  have "snd (analyze_resume timeout_runtime short_settings (str ''Software engineer'') (str ''u1'')) =
           [str ''Analyze this resume and provide a comprehensive evaluation:\<newline>\<newline>RESUME CONTENT:\<newline>---\<newline>''
            @ str ''Softw''
            @ str ''\<newline>---\<newline>\<newline>Provide your analysis in the specified JSON format.'']"
    by simp
  with a b c show ?thesis by (intro conjI)
qed

section \<open>Validation of the request\<close>

lemma strip_empty_iff: "strip s = [] \<longleftrightarrow> (\<forall>c\<in>set s. isspace c)"
proof -
  have "(\<forall>x\<in>set (dropWhile isspace s). isspace x) \<longleftrightarrow> dropWhile isspace s = []"
  proof (cases "dropWhile isspace s")
    case Nil
    then show ?thesis by (simp del: dropWhile_eq_Nil_conv)
  next
    case (Cons x xs)
    then have "\<not> isspace x"
      using hd_dropWhile [of isspace s] by simp
    with Cons show ?thesis by auto
  qed
  then show ?thesis
    by (simp add: strip_def dropWhile_eq_Nil_conv)
qed

text \<open>
  Claim C7. A content that is empty or all whitespace is rejected by
  \<^verbatim>\<open>validate_content\<close>, and the request is rejected by its validation, whatever the
  other field is: \<^verbatim>\<open>POST /analyze\<close> answers with a client error (422) and nothing
  happens besides, so the orchestrator is never invoked.
\<close>

theorem blank_content_rejected:
  assumes "\<forall>c\<in>set (content request_body). isspace c"
  shows "validate_content (content request_body) =
           Inl (ValueError (str ''Content cannot be empty or whitespace''))
         \<and> (\<exists>errors. validate_request request_body = Inl errors
              \<and> post_analyze rt st request_body =
                  (\<lparr>status_code = 422, body = RequestErrors errors\<rparr>, []))"
proof -
  from assms have s: "strip (content request_body) = []"
    by (simp add: strip_empty_iff)
  then have "\<exists>e. content_field (content request_body) = Inl e"
    by (auto simp: content_field_def validate_content_def split: option.splits)
  then have "\<exists>errors. validate_request request_body = Inl errors"
    by (auto simp: validate_request_def split: sum.splits)
  then show ?thesis
    using s by (auto simp: validate_content_def post_analyze_def)
qed

lemma blank_request_strip: "strip (content blank_request) = []"
  by (simp add: blank_request_def strip_def isspace_def str_def)

lemma blank_request_validation:
  "validate_request blank_request =
     Inl [(str ''content'',
           ValidatorFailed (ValueError (str ''Content cannot be empty or whitespace'')))]"
  using blank_request_strip
  by (simp add: validate_request_def content_field_def user_id_field_def check_length_def
      validate_content_def) (simp add: blank_request_def str_def)

theorem blank_content_rejected_witness:
  "strip (content blank_request) = []
   \<and> length (content blank_request) = 12
   \<and> validate_content (content blank_request) =
       Inl (ValueError (str ''Content cannot be empty or whitespace''))
   \<and> post_analyze timeout_runtime default_settings blank_request =
       (\<lparr>status_code = 422,
         body = RequestErrors
           [(str ''content'',
             ValidatorFailed (ValueError (str ''Content cannot be empty or whitespace'')))]\<rparr>,
        [])"
proof -
  have w: "\<forall>c\<in>set (content blank_request). isspace c"
    using blank_request_strip by (simp add: strip_empty_iff)
  have l: "length (content blank_request) = 12"
    by (simp add: blank_request_def)
  from blank_content_rejected [OF w, of timeout_runtime default_settings] blank_request_validation
  have "validate_content (content blank_request) =
       Inl (ValueError (str ''Content cannot be empty or whitespace''))"
    and "post_analyze timeout_runtime default_settings blank_request =
       (\<lparr>status_code = 422,
         body = RequestErrors
           [(str ''content'',
             ValidatorFailed (ValueError (str ''Content cannot be empty or whitespace'')))]\<rparr>,
        [])"
    by auto
  with l show ?thesis
    by (intro conjI blank_request_strip)
qed

text \<open>
  Claim C8, as amended. A request whose content has fewer than 10 characters (5, for
  one) is rejected by the validation of the request with the error "string too short"
  on \<^verbatim>\<open>content\<close>; the response has status 422, the status of the framework for a body
  that fails validation, and the orchestrator is not reached.
\<close>

theorem short_content_rejected_with_422:
  assumes "length (content request_body) < 10"
  shows "\<exists>errors. validate_request request_body = Inl errors
           \<and> hd errors = (str ''content'', StringTooShort 10)
           \<and> post_analyze rt st request_body =
               (\<lparr>status_code = 422, body = RequestErrors errors\<rparr>, [])"
proof -
  from assms have "content_field (content request_body) = Inl (StringTooShort 10)"
    by (simp add: content_field_def check_length_def)
  then have "\<exists>errors. validate_request request_body = Inl errors
      \<and> hd errors = (str ''content'', StringTooShort 10)"
    by (auto simp: validate_request_def split: sum.splits)
  then show ?thesis
    by (auto simp: post_analyze_def)
qed

lemma short_request_validation:
  "validate_request short_request = Inl [(str ''content'', StringTooShort 10)]"
  by (simp add: validate_request_def content_field_def user_id_field_def check_length_def
      short_request_def)

theorem short_content_rejected_with_422_witness:
  "length (content short_request) = 5
   \<and> validate_request short_request = Inl [(str ''content'', StringTooShort 10)]
   \<and> post_analyze timeout_runtime default_settings short_request =
       (\<lparr>status_code = 422, body = RequestErrors [(str ''content'', StringTooShort 10)]\<rparr>, [])"
proof -
  have l: "length (content short_request) = 5"
    by (simp add: short_request_def)
  then have "length (content short_request) < 10" by simp
  from short_content_rejected_with_422 [OF this, of timeout_runtime default_settings]
    short_request_validation
  have "post_analyze timeout_runtime default_settings short_request =
       (\<lparr>status_code = 422, body = RequestErrors [(str ''content'', StringTooShort 10)]\<rparr>, [])"
    by auto
  with l show ?thesis
    by (intro conjI short_request_validation)
qed

text \<open>
  Claim C8 as stated fails: the status of the response to a content of 5 characters is
  422, not 400. The handler that answers 400 is inside the endpoint function, which is
  not called for a body that fails validation.
\<close>

theorem short_content_not_400_counterexample:
  "length (content short_request) = 5
   \<and> status_code (fst (post_analyze timeout_runtime default_settings short_request)) = 422
   \<and> status_code (fst (post_analyze timeout_runtime default_settings short_request)) \<noteq> 400"
  by (simp add: post_analyze_def short_request_validation) (simp add: short_request_def)

text \<open>
  Claim C9. The minimum length is checked on the content as received and the validator
  then returns the stripped content: a content of 10 to 10000 characters that is not
  all whitespace is accepted, and the orchestrator is called with the stripped content,
  however short that is.
\<close>

theorem padded_content_accepted_stripped:
  assumes "10 \<le> length raw" and "length raw \<le> 10000" and "strip raw \<noteq> []"
    and "1 \<le> length uid" and "length uid \<le> 100"
    and "get_agent_error rt = None"
  shows "validate_request \<lparr>content = raw, user_id = uid\<rparr> =
           Inr \<lparr>content = strip raw, user_id = uid\<rparr>
         \<and> hd (snd (post_analyze rt st \<lparr>content = raw, user_id = uid\<rparr>)) =
             OrchestratorCalled (strip raw) uid"
proof -
  from assms have v: "validate_request \<lparr>content = raw, user_id = uid\<rparr> =
           Inr \<lparr>content = strip raw, user_id = uid\<rparr>"
    by (auto simp: validate_request_def content_field_def user_id_field_def check_length_def
        validate_content_def)
  then show ?thesis
    using assms(6)
    by (simp add: post_analyze_def analyze_resume_endpoint_def Let_def
        split: prod.splits sum.splits)
qed

lemma padded_strip: "strip (str ''   abc    '') = str ''abc''"
  by (simp add: strip_def isspace_def str_def)

theorem padded_content_accepted_stripped_witness:
  "length (str ''   abc    '') = 10
   \<and> strip (str ''   abc    '') = str ''abc''
   \<and> length (strip (str ''   abc    '')) < 10
   \<and> get_agent_error timeout_runtime = None
   \<and> validate_request \<lparr>content = str ''   abc    '', user_id = str ''u1''\<rparr> =
       Inr \<lparr>content = str ''abc'', user_id = str ''u1''\<rparr>
   \<and> hd (snd (post_analyze timeout_runtime default_settings
               \<lparr>content = str ''   abc    '', user_id = str ''u1''\<rparr>)) =
       OrchestratorCalled (str ''abc'') (str ''u1'')"
proof -
  have a: "10 \<le> length (str ''   abc    '')" "length (str ''   abc    '') \<le> 10000"
    "strip (str ''   abc    '') \<noteq> []" "1 \<le> length (str ''u1'')" "length (str ''u1'') \<le> 100"
    "get_agent_error timeout_runtime = None"
    by (simp_all add: padded_strip timeout_runtime_def) (simp add: str_def)
  have l: "length (str ''   abc    '') = 10" "length (strip (str ''   abc    '')) < 10"
    by (simp_all add: padded_strip)
  from padded_content_accepted_stripped [OF a, of default_settings]
  have "validate_request \<lparr>content = str ''   abc    '', user_id = str ''u1''\<rparr> =
       Inr \<lparr>content = str ''abc'', user_id = str ''u1''\<rparr>"
    and "hd (snd (post_analyze timeout_runtime default_settings
               \<lparr>content = str ''   abc    '', user_id = str ''u1''\<rparr>)) =
       OrchestratorCalled (str ''abc'') (str ''u1'')"
    by (simp_all add: padded_strip)
  with l a(6) show ?thesis
    by (intro conjI padded_strip)
qed

section \<open>Consequences at the endpoint\<close>

lemma post_analyze_reply:
  assumes "validate_request request_body = Inr request"
    and "get_agent_error rt = None"
    and "agent_initialized rt"
    and "agent_run rt (build_prompt (truncate_content st (content request))) = Reply reply"
  shows "fst (post_analyze rt st request_body) =
           (case parse_agent_response reply of
              Inl e \<Rightarrow> error_response e
            | Inr analysis \<Rightarrow>
                (case build_result rt st (truncate_content st (content request))
                        (user_id request) analysis of
                   Inl e \<Rightarrow> error_response e
                 | Inr (sc, oc, sugs, md) \<Rightarrow>
                     (case make_response rt sc oc sugs md of
                        Inl e \<Rightarrow> error_response e
                      | Inr r \<Rightarrow> \<lparr>status_code = 200, body = Analysis r\<rparr>)))"
  using assms
  by (simp add: post_analyze_def analyze_resume_endpoint_def analyze_resume_def Let_def
      split: sum.splits prod.splits)

text \<open>
  A reply that cannot be decoded never fails the request: \<^verbatim>\<open>POST /analyze\<close> answers
  200 with the fallback.
\<close>

theorem undecodable_reply_answers_200:
  assumes "validate_request request_body = Inr request"
    and "get_agent_error rt = None"
    and "agent_initialized rt"
    and "agent_run rt (build_prompt (truncate_content st (content request))) = Reply reply"
    and "json_loads (extract_json_text reply) = None"
  shows "fst (post_analyze rt st request_body) =
           \<lparr>status_code = 200,
            body = Analysis
              \<lparr>score = Finite 70,
               optimized_content = str ''Analysis parsing failed. Original content returned.'',
               suggestions = [fallback_suggestion],
               response_metadata =
                 \<lparr>model_used = model_deployment_name st,
                  content_length = length (truncate_content st (content request)),
                  metadata_user_id = user_id request\<rparr>\<rparr>\<rparr>"
proof -
  have "parse_agent_response reply = Inr fallback_analysis"
    using assms(5) by (simp add: parse_agent_response_def)
  then show ?thesis
    using post_analyze_reply [OF assms(1-4)]
    by (simp add: fallback_build_result fallback_make_response)
qed

lemma sample_request_fields:
  "content sample_request = str ''Software engineer''" "user_id sample_request = str ''u1''"
  by (simp_all add: sample_request_def)

lemma sample_request_not_truncated:
  "truncate_content default_settings (content sample_request) = str ''Software engineer''"
  by (simp add: truncate_content_def default_settings_def sample_request_def)

lemma sample_request_length:
  "length (truncate_content default_settings (str ''Software engineer'')) = 17"
  by (simp add: truncate_content_def default_settings_def)

lemma default_model: "model_deployment_name default_settings = str ''gpt-4o-deployment''"
  by (simp add: default_settings_def)

theorem undecodable_reply_answers_200_witness:
  "validate_request sample_request = Inr sample_request
   \<and> json_loads (extract_json_text (str ''not json at all'')) = None
   \<and> fst (post_analyze (reply_runtime (str ''not json at all'')) default_settings sample_request) =
           \<lparr>status_code = 200,
            body = Analysis
              \<lparr>score = Finite 70,
               optimized_content = str ''Analysis parsing failed. Original content returned.'',
               suggestions = [fallback_suggestion],
               response_metadata =
                 \<lparr>model_used = str ''gpt-4o-deployment'',
                  content_length = 17,
                  metadata_user_id = str ''u1''\<rparr>\<rparr>\<rparr>"
proof -
  have l: "json_loads (extract_json_text (str ''not json at all'')) = None"
    by (simp add: not_json_extract not_json_loads)
  have r: "get_agent_error (reply_runtime (str ''not json at all'')) = None"
    "agent_initialized (reply_runtime (str ''not json at all''))"
    "agent_run (reply_runtime (str ''not json at all''))
       (build_prompt (truncate_content default_settings (content sample_request))) =
     Reply (str ''not json at all'')"
    by (simp_all add: reply_runtime_def)
  from undecodable_reply_answers_200 [OF sample_request_valid r l]
  have "fst (post_analyze (reply_runtime (str ''not json at all'')) default_settings sample_request) =
           \<lparr>status_code = 200,
            body = Analysis
              \<lparr>score = Finite 70,
               optimized_content = str ''Analysis parsing failed. Original content returned.'',
               suggestions = [fallback_suggestion],
               response_metadata =
                 \<lparr>model_used = str ''gpt-4o-deployment'',
                  content_length = 17,
                  metadata_user_id = str ''u1''\<rparr>\<rparr>\<rparr>"
    by (simp add: sample_request_length sample_request_fields default_model)
  with l show ?thesis
    by (intro conjI sample_request_valid)
qed

text \<open>
  A reply whose JSON object lacks a required field fails the request:
  \<^verbatim>\<open>POST /analyze\<close> answers 400 with the message of the \<^verbatim>\<open>ValueError\<close>.
\<close>

theorem missing_field_answers_400:
  assumes "validate_request request_body = Inr request"
    and "get_agent_error rt = None"
    and "agent_initialized rt"
    and "agent_run rt (build_prompt (truncate_content st (content request))) = Reply reply"
    and "json_loads (extract_json_text reply) = Some (PyDict kvs)"
    and "filter (\<lambda>f. map_of kvs f = None) required_fields = f # rest"
  shows "fst (post_analyze rt st request_body) =
           \<lparr>status_code = 400,
            body = ErrorDetail (Message (str ''Missing required field: '' @ f))\<rparr>"
  using post_analyze_reply [OF assms(1-4)] parse_missing_field [OF assms(5,6)]
  by (simp add: error_response_def)

theorem missing_field_answers_400_witness:
  "validate_request sample_request = Inr sample_request
   \<and> json_loads (extract_json_text missing_score_json) =
       Some (PyDict [(str ''optimized_content'', PyStr (str ''X'')), (str ''suggestions'', PyList [])])
   \<and> fst (post_analyze (reply_runtime missing_score_json) default_settings sample_request) =
           \<lparr>status_code = 400,
            body = ErrorDetail (Message (str ''Missing required field: score''))\<rparr>"
proof -
  have r: "get_agent_error (reply_runtime missing_score_json) = None"
    "agent_initialized (reply_runtime missing_score_json)"
    "agent_run (reply_runtime missing_score_json)
       (build_prompt (truncate_content default_settings (content sample_request))) =
     Reply missing_score_json"
    by (simp_all add: reply_runtime_def)
  from missing_field_answers_400 [OF sample_request_valid r missing_score_extract_loads
      missing_score_filter]
  have "fst (post_analyze (reply_runtime missing_score_json) default_settings sample_request) =
           \<lparr>status_code = 400,
            body = ErrorDetail (Message (str ''Missing required field: score''))\<rparr>"
    by (simp only: missing_score_message)
  then show ?thesis
    by (intro conjI sample_request_valid missing_score_extract_loads)
qed

end
